theory Spec2Isabelle
  imports Complex_Main "HOL-Library.Multiset" "HOL-Library.Word"
begin

section \<open>Data model\<close>

text \<open>
  The persistent state of the server is the two tables of the record store (upload
  sessions and chunk records) together with the upload directory of the file system.
  Tables are lists of rows in storage order; the primary key of a table is an invariant
  (\<open>wf_db\<close> below), as in the store.  Record fields carry a prefix (\<open>u_\<close> for the
  Upload model, \<open>c_\<close> for the Chunk model) because both models have a \<open>status\<close>.
\<close>

type_synonym byte = "8 word"

datatype Status = UPLOADING | PROCESSING | COMPLETED | FAILED

record upload =
  u_id :: string
  u_filename :: string
  u_totalSize :: int
  u_totalChunks :: int
  u_status :: Status
  u_finalHash :: "string option"
  u_createdAt :: int

record chunk =
  c_uploadId :: string
  c_chunkIndex :: nat
  c_status :: Status

type_synonym fs = "string \<rightharpoonup> byte list"

record db =
  uploads :: "upload list"
  chunks :: "chunk list"
  files :: fs

text \<open>Primary keys: \<open>id\<close> of an upload, \<open>(uploadId, chunkIndex)\<close> of a chunk.\<close>

definition chunk_key :: "chunk \<Rightarrow> string \<times> nat" where
  "chunk_key c = (c_uploadId c, c_chunkIndex c)"

definition wf_db :: "db \<Rightarrow> bool" where
  "wf_db s \<longleftrightarrow> distinct (map u_id (uploads s)) \<and> distinct (map chunk_key (chunks s))"

section \<open>fileService.ts\<close>

text \<open>
  \<open>path.join\<close> of Node on POSIX: the arguments are joined with a slash and the result is
  normalised.  Empty segments and \<open>.\<close> segments are dropped; a \<open>..\<close> segment removes the
  segment before it (above the root of an absolute path it is dropped, at the start of a
  relative path it is kept); a trailing slash is kept.
\<close>

fun split_path :: "string \<Rightarrow> string list" where
  "split_path [] = [[]]"
| "split_path (c # cs) =
     (if c = CHR ''/'' then [] # split_path cs
      else (case split_path cs of
              seg # segs \<Rightarrow> (c # seg) # segs
            | [] \<Rightarrow> [[c]]))"

fun join_segments :: "string list \<Rightarrow> string" where
  "join_segments [] = []"
| "join_segments [seg] = seg"
| "join_segments (seg # segs) = seg @ ''/'' @ join_segments segs"

text \<open>The segments kept so far are a stack, the latest first.\<close>

definition normalize_step :: "bool \<Rightarrow> string list \<Rightarrow> string \<Rightarrow> string list" where
  "normalize_step allowAboveRoot res seg =
     (if seg = [] \<or> seg = ''.'' then res
      else if seg = ''..'' then
        (case res of
           [] \<Rightarrow> (if allowAboveRoot then [''..''] else [])
         | lastSeg # rest \<Rightarrow>
             (if lastSeg = ''..'' then (if allowAboveRoot then ''..'' # res else res)
              else rest))
      else seg # res)"

definition normalizeString :: "string \<Rightarrow> bool \<Rightarrow> string" where
  "normalizeString path allowAboveRoot =
     join_segments (rev (foldl (normalize_step allowAboveRoot) [] (split_path path)))"

definition path_normalize :: "string \<Rightarrow> string" where
  "path_normalize path =
     (if path = [] then ''.''
      else
        (let isAbsolute = (hd path = CHR ''/'');
             trailingSeparator = (last path = CHR ''/'');
             res = normalizeString path (\<not> isAbsolute)
         in if res = [] then (if isAbsolute then ''/'' else if trailingSeparator then ''./'' else ''.'')
            else (if isAbsolute then ''/'' else []) @ res
                   @ (if trailingSeparator then ''/'' else [])))"

definition path_join :: "string \<Rightarrow> string \<Rightarrow> string" where
  "path_join a b =
     (if a = [] then path_normalize b
      else if b = [] then path_normalize a
      else path_normalize (a @ ''/'' @ b))"

text \<open>The directory a path without a trailing slash lies in.\<close>

definition parent_dir :: "string \<Rightarrow> string" where
  "parent_dir path =
     (let d = join_segments (butlast (split_path path))
      in if d = [] then (if path \<noteq> [] \<and> hd path = CHR ''/'' then ''/'' else ''.'') else d)"

text \<open>
  The upload directory is \<open>path.join(__dirname, '../../uploads')\<close>, an absolute path; what
  lies above \<open>uploads\<close> is the deployment's, and \<open>/app/backend\<close> stands for it.  The
  scratch path of a session is built from an identifier the store has generated (finalize
  and cleanup read it from a row, a chunk request carries the one the handshake returned):
  identifiers have no path separator, so the scratch path is the plain concatenation.
\<close>

definition UPLOAD_DIR :: string where
  "UPLOAD_DIR = ''/app/backend/uploads''"

definition getFilePath :: "string \<Rightarrow> string" where
  "getFilePath uploadId = UPLOAD_DIR @ ''/'' @ uploadId @ ''.bin''"

text \<open>
  A positional write of \<open>buffer.length\<close> bytes at \<open>position\<close> on a handle opened
  with \<open>r+\<close>: the file is never truncated, bytes outside the written range stay, and
  a write that starts beyond the end of the file leaves a gap that reads as zero bytes.
  Writing no bytes changes nothing.
\<close>

definition write_at :: "byte list \<Rightarrow> nat \<Rightarrow> byte list \<Rightarrow> byte list" where
  "write_at f pos buf =
     (if buf = [] then f
      else take pos f @ replicate (pos - length f) 0 @ buf @ drop (pos + length buf) f)"

definition writeChunk :: "fs \<Rightarrow> string \<Rightarrow> nat \<Rightarrow> byte list \<Rightarrow> nat \<Rightarrow> fs \<times> nat" where
  "writeChunk fls uploadId index buffer offset =
     (let filePath = getFilePath uploadId;
          fls1 = (if fls filePath = None then fls(filePath \<mapsto> []) else fls);
          content = (case fls1 filePath of Some c \<Rightarrow> c | None \<Rightarrow> [])
      in (fls1(filePath \<mapsto> write_at content offset buffer), length buffer))"

text \<open>
  \<open>assembleFile\<close>: the final name holds the filename the client declared, which may
  contain separators and dot segments, so the final path is the normalised join.
  \<open>fs.promises.rename\<close> fails with \<open>ENOENT\<close> when the scratch file does not exist or the
  directory of the final path does not exist, and does not replace a directory by a file.
  The upload directory exists (the module creates it when loaded); \<open>dirs\<close> are the other
  directories that exist.  A rename onto an existing file replaces it.  Where a file stands
  in the place of the directory of the final path the platform reports \<open>ENOTDIR\<close>; the
  model reports the missing directory in both cases.
\<close>

definition quoted :: "string \<Rightarrow> string" where
  "quoted path = [CHR 0x27] @ path @ [CHR 0x27]"

definition rename_error :: "string \<Rightarrow> string \<Rightarrow> string \<Rightarrow> string" where
  "rename_error code oldPath newPath =
     code @ '', rename '' @ quoted oldPath @ '' -> '' @ quoted newPath"

definition assembleFile ::
  "string set \<Rightarrow> fs \<Rightarrow> string \<Rightarrow> string \<Rightarrow> string + (fs \<times> string)" where
  "assembleFile dirs fls uploadId finalFilename =
     (let tempPath = getFilePath uploadId;
          finalPath = path_join UPLOAD_DIR (uploadId @ ''_'' @ finalFilename)
      in case fls tempPath of
           None \<Rightarrow> Inl (rename_error ''ENOENT: no such file or directory'' tempPath finalPath)
         | Some c \<Rightarrow>
             (if last finalPath = CHR ''/'' then
                Inl (rename_error ''ENOTDIR: not a directory'' tempPath finalPath)
              else if finalPath = UPLOAD_DIR \<or> finalPath \<in> dirs then
                Inl (rename_error ''EISDIR: illegal operation on a directory'' tempPath finalPath)
              else if parent_dir finalPath \<noteq> UPLOAD_DIR \<and> parent_dir finalPath \<notin> dirs then
                Inl (rename_error ''ENOENT: no such file or directory'' tempPath finalPath)
              else Inr ((fls(tempPath := None))(finalPath \<mapsto> c), finalPath)))"

text \<open>
  \<open>peekZip\<close>: the archive reader (yauzl) is an external library and is a parameter:
  it gives the entry names of an archive in order, or an error.  The loop of the
  \<open>entry\<close> handler keeps the names that do not end in a slash and stops reading once
  ten names are collected.
\<close>

fun peek_entries :: "string list \<Rightarrow> string list \<Rightarrow> string list" where
  "peek_entries filenames [] = filenames"
| "peek_entries filenames (fileName # rest) =
     (let filenames1 = (if fileName \<noteq> [] \<and> last fileName = CHR ''/'' then filenames
                        else filenames @ [fileName])
      in if length filenames1 < 10 then peek_entries filenames1 rest else filenames1)"

definition peekZip :: "(byte list \<Rightarrow> string + string list) \<Rightarrow> fs \<Rightarrow> string \<Rightarrow> string + string list" where
  "peekZip yauzl fls filePath =
     (case fls filePath of
        None \<Rightarrow> Inl (''ENOENT: no such file or directory, open '' @ quoted filePath)
      | Some c \<Rightarrow> (case yauzl c of Inl err \<Rightarrow> Inl err
                   | Inr entries \<Rightarrow> Inr (peek_entries [] entries)))"

section \<open>uploader.ts: chunk arithmetic of the client\<close>

definition CHUNK_SIZE :: nat where
  "CHUNK_SIZE = 5 * 1024 * 1024"

definition CONCURRENCY :: nat where
  "CONCURRENCY = 3"

text \<open>
  \<open>Math.ceil(file.size / CHUNK_SIZE)\<close>, the number of chunks the constructor creates
  (the local constant \<open>totalChunks\<close>), as a function of the file size.
\<close>

definition totalChunks_of :: "nat \<Rightarrow> nat" where
  "totalChunks_of sz = nat \<lceil>real sz / real CHUNK_SIZE\<rceil>"

text \<open>\<open>Blob.slice(start, end)\<close> clamps both positions to the size of the blob.\<close>

definition slice :: "byte list \<Rightarrow> nat \<Rightarrow> nat \<Rightarrow> byte list" where
  "slice blob start endp =
     (let relStart = min start (length blob); relEnd = min endp (length blob)
      in take (relEnd - relStart) (drop relStart blob))"

definition getChunk :: "byte list \<Rightarrow> nat \<Rightarrow> byte list" where
  "getChunk file index =
     (let start = index * CHUNK_SIZE;
          endp = min (start + CHUNK_SIZE) (length file)
      in slice file start endp)"

definition getChunkSize :: "byte list \<Rightarrow> nat \<Rightarrow> int" where
  "getChunkSize file index =
     (let start = index * CHUNK_SIZE;
          endp = min (start + CHUNK_SIZE) (length file)
      in int endp - int start)"


section \<open>routes/upload.ts: the record store\<close>

text \<open>
  The queries the handlers issue.  \<open>findFirst\<close> gives the first matching row in storage
  order.  An \<open>update\<close> or \<open>delete\<close> by key is issued by the handlers only for a row they
  have just read or written, so the store's "record not found" error does not arise and
  both are total here.
\<close>

definition findFirst_upload :: "upload list \<Rightarrow> string \<Rightarrow> int \<Rightarrow> upload option" where
  "findFirst_upload ups filename totalSize =
     find (\<lambda>u. u_filename u = filename \<and> u_totalSize u = totalSize \<and> u_status u = UPLOADING) ups"

definition findUnique_upload :: "upload list \<Rightarrow> string \<Rightarrow> upload option" where
  "findUnique_upload ups uploadId = find (\<lambda>u. u_id u = uploadId) ups"

text \<open>
  Modelled from the spec: the schema of the Upload model is not part of the sources.  A
  created row gets the identifier the store assigns, status \<open>UPLOADING\<close> (a session is
  created in the state the handshake looks for), no \<open>finalHash\<close> (populated only on
  successful completion) and the creation time as \<open>createdAt\<close>.
\<close>

definition new_upload :: "string \<Rightarrow> int \<Rightarrow> string \<Rightarrow> int \<Rightarrow> int \<Rightarrow> upload" where
  "new_upload newId now filename totalSize totalChunks =
     \<lparr>u_id = newId, u_filename = filename, u_totalSize = totalSize,
      u_totalChunks = totalChunks, u_status = UPLOADING, u_finalHash = None,
      u_createdAt = now\<rparr>"

text \<open>The insert fails on a duplicate primary key.\<close>

definition create_upload :: "upload list \<Rightarrow> upload \<Rightarrow> string + upload list" where
  "create_upload ups row =
     (if u_id row \<in> set (map u_id ups) then Inl ''Unique constraint failed on the fields: (id)''
      else Inr (ups @ [row]))"

definition updateMany_status :: "upload list \<Rightarrow> string \<Rightarrow> Status \<Rightarrow> Status \<Rightarrow> nat \<times> upload list" where
  "updateMany_status ups uploadId old new =
     (length (filter (\<lambda>u. u_id u = uploadId \<and> u_status u = old) ups),
      map (\<lambda>u. if u_id u = uploadId \<and> u_status u = old then u\<lparr>u_status := new\<rparr> else u) ups)"

definition update_upload :: "upload list \<Rightarrow> string \<Rightarrow> (upload \<Rightarrow> upload) \<Rightarrow> upload list" where
  "update_upload ups uploadId f = map (\<lambda>u. if u_id u = uploadId then f u else u) ups"

definition upsert_chunk :: "chunk list \<Rightarrow> string \<Rightarrow> nat \<Rightarrow> Status \<Rightarrow> chunk list" where
  "upsert_chunk cs uId cIndex st =
     (if (uId, cIndex) \<in> set (map chunk_key cs)
      then map (\<lambda>c. if chunk_key c = (uId, cIndex) then c\<lparr>c_status := st\<rparr> else c) cs
      else cs @ [\<lparr>c_uploadId = uId, c_chunkIndex = cIndex, c_status = st\<rparr>])"

definition update_chunk :: "chunk list \<Rightarrow> string \<Rightarrow> nat \<Rightarrow> Status \<Rightarrow> chunk list" where
  "update_chunk cs uId cIndex st =
     map (\<lambda>c. if chunk_key c = (uId, cIndex) then c\<lparr>c_status := st\<rparr> else c) cs"

definition completed_chunks :: "chunk list \<Rightarrow> string \<Rightarrow> chunk list" where
  "completed_chunks cs uploadId =
     filter (\<lambda>c. c_uploadId c = uploadId \<and> c_status c = COMPLETED) cs"

section \<open>routes/upload.ts: requests and responses\<close>

text \<open>
  A response is the HTTP status code and the body.  Absent request fields are \<open>None\<close>;
  JavaScript's \<open>!x\<close> holds of an absent field, of the empty string and of the number 0.
\<close>

datatype body =
    ErrorJson string
  | InitJson string "nat list"
  | ChunkJson
  | SendText string
  | StatusJson Status string
  | CompletedJson "string list" string
  | CleanedJson nat

type_synonym response = "nat \<times> body"

record init_req =
  req_filename :: "string option"
  req_totalSize :: "int option"
  req_totalChunks :: "int option"

record chunk_req =
  q_uploadId :: "string option"
  q_chunkIndex :: "string option"
  body_data :: "string option"

definition falsy_str :: "string option \<Rightarrow> bool" where
  "falsy_str x = (case x of None \<Rightarrow> True | Some v \<Rightarrow> v = [])"

definition falsy_num :: "int option \<Rightarrow> bool" where
  "falsy_num x = (case x of None \<Rightarrow> True | Some v \<Rightarrow> v = 0)"

text \<open>Decimal rendering of numbers inside an error message.\<close>

fun show_nat :: "nat \<Rightarrow> string" where
  "show_nat n =
     (if n < 10 then [''0123456789'' ! n]
      else show_nat (n div 10) @ [''0123456789'' ! (n mod 10)])"

declare show_nat.simps [simp del]

definition show_int :: "int \<Rightarrow> string" where
  "show_int i = (if i < 0 then ''-'' @ show_nat (nat (- i)) else show_nat (nat i))"


section \<open>routes/upload.ts: the handlers\<close>

subsection \<open>POST /init\<close>

text \<open>
  The handler awaits three queries in turn: the lookup (\<open>findFirst\<close>), the insert when the
  lookup found nothing (\<open>create\<close>), and the query of the completed chunks.  Each is one
  function, so that runs of two requests can be written down step by step.  The identifier
  and the creation time of a new row are assigned by the store and are parameters.
\<close>

definition init_lookup :: "db \<Rightarrow> string \<Rightarrow> int \<Rightarrow> upload option" where
  "init_lookup s filename totalSize = findFirst_upload (uploads s) filename totalSize"

definition init_create ::
  "db \<Rightarrow> upload option \<Rightarrow> string \<Rightarrow> int \<Rightarrow> int \<Rightarrow> string \<Rightarrow> int \<Rightarrow> string + (db \<times> upload)" where
  "init_create s found filename totalSize totalChunks newId now =
     (case found of
        Some upload \<Rightarrow> Inr (s, upload)
      | None \<Rightarrow>
          (let row = new_upload newId now filename totalSize totalChunks
           in case create_upload (uploads s) row of
                Inl err \<Rightarrow> Inl err
              | Inr ups \<Rightarrow> Inr (s\<lparr>uploads := ups\<rparr>, row)))"

definition init_respond :: "db \<Rightarrow> upload \<Rightarrow> response" where
  "init_respond s upload =
     (200, InitJson (u_id upload) (map c_chunkIndex (completed_chunks (chunks s) (u_id upload))))"

definition init_handler :: "db \<Rightarrow> init_req \<Rightarrow> string \<Rightarrow> int \<Rightarrow> db \<times> response" where
  "init_handler s req newId now =
     (if falsy_str (req_filename req) \<or> falsy_num (req_totalSize req)
         \<or> falsy_num (req_totalChunks req)
      then (s, (400, ErrorJson ''Missing required fields''))
      else
        (case (req_filename req, req_totalSize req, req_totalChunks req) of
           (Some filename, Some totalSize, Some totalChunks) \<Rightarrow>
             (case init_create s (init_lookup s filename totalSize)
                     filename totalSize totalChunks newId now of
                Inl err \<Rightarrow> (s, (500, ErrorJson err))
              | Inr (s1, upload) \<Rightarrow> (s1, init_respond s1 upload))
         | _ \<Rightarrow> (s, (400, ErrorJson ''Missing required fields''))))"

text \<open>
  Two requests A and B in flight at once, in the order: lookup of A, lookup of B, insert of
  A, insert of B, then both responses.
\<close>

definition init_interleaved ::
  "db \<Rightarrow> string \<Rightarrow> int \<Rightarrow> int \<Rightarrow> string \<Rightarrow> string \<Rightarrow> int \<Rightarrow> string + (db \<times> response \<times> response)" where
  "init_interleaved s filename totalSize totalChunks idA idB now =
     (let foundA = init_lookup s filename totalSize;
          foundB = init_lookup s filename totalSize
      in case init_create s foundA filename totalSize totalChunks idA now of
           Inl err \<Rightarrow> Inl err
         | Inr (sA, uploadA) \<Rightarrow>
             (case init_create sA foundB filename totalSize totalChunks idB now of
                Inl err \<Rightarrow> Inl err
              | Inr (sB, uploadB) \<Rightarrow> Inr (sB, init_respond sB uploadA, init_respond sB uploadB)))"

subsection \<open>POST /chunk\<close>

text \<open>
  \<open>Number(chunkIndex)\<close> and \<open>Buffer.from(data, 'base64')\<close> are library conversions and are
  parameters.  The chunk index is modelled for strings that denote a natural number.
\<close>

definition CHUNK_SIZE_server :: nat where
  "CHUNK_SIZE_server = 5 * 1024 * 1024"

definition chunk_handler ::
  "(string \<Rightarrow> nat) \<Rightarrow> (string \<Rightarrow> byte list) \<Rightarrow> db \<Rightarrow> chunk_req \<Rightarrow> db \<times> response" where
  "chunk_handler Number from_base64 s req =
     (if falsy_str (q_uploadId req) \<or> falsy_str (q_chunkIndex req)
      then (s, (400, ErrorJson ''Missing metadata''))
      else
        (case (q_uploadId req, q_chunkIndex req) of
           (Some uId, Some chunkIndex) \<Rightarrow>
             (let cIndex = Number chunkIndex;
                  s1 = s\<lparr>chunks := upsert_chunk (chunks s) uId cIndex UPLOADING\<rparr>;
                  offset = cIndex * CHUNK_SIZE_server
              in if falsy_str (body_data req) then (s1, (400, SendText ''No data''))
                 else
                   (case body_data req of
                      Some data \<Rightarrow>
                        (let buffer = from_base64 data;
                             s2 = s1\<lparr>files := fst (writeChunk (files s1) uId cIndex buffer offset)\<rparr>;
                             s3 = s2\<lparr>chunks := update_chunk (chunks s2) uId cIndex COMPLETED\<rparr>
                         in (s3, (200, ChunkJson)))
                    | None \<Rightarrow> (s1, (400, SendText ''No data''))))
         | _ \<Rightarrow> (s, (400, ErrorJson ''Missing metadata''))))"

subsection \<open>POST /finalize\<close>

definition finalize_failed :: "db \<Rightarrow> string \<Rightarrow> string \<Rightarrow> db \<times> response" where
  "finalize_failed s uploadId message =
     (s\<lparr>uploads := update_upload (uploads s) uploadId (\<lambda>u. u\<lparr>u_status := FAILED\<rparr>)\<rparr>,
      (500, ErrorJson message))"

definition finalize_handler ::
  "string set \<Rightarrow> (byte list \<Rightarrow> string + string list) \<Rightarrow> db \<Rightarrow> string \<Rightarrow> db \<times> response" where
  "finalize_handler dirs yauzl s uploadId =
     (let (count, ups) = updateMany_status (uploads s) uploadId UPLOADING PROCESSING
      in if count = 0 then
           (case findUnique_upload (uploads s) uploadId of
              None \<Rightarrow> (s, (404, ErrorJson ''Upload not found''))
            | Some upload \<Rightarrow>
                (s, (200, StatusJson (u_status upload) ''Upload already finalized or processing'')))
         else
           (let s1 = s\<lparr>uploads := ups\<rparr>
            in case findUnique_upload (uploads s1) uploadId of
                 None \<Rightarrow> (s1, (500, ErrorJson ''Upload disappeared''))
               | Some upload \<Rightarrow>
                   (let chunkCount = length (completed_chunks (chunks s1) uploadId)
                    in if int chunkCount \<noteq> u_totalChunks upload then
                         finalize_failed s1 uploadId
                           (''Missing chunks. Expected '' @ show_int (u_totalChunks upload)
                              @ '', got '' @ show_nat chunkCount)
                       else
                         (case assembleFile dirs (files s1) uploadId (u_filename upload) of
                            Inl err \<Rightarrow> finalize_failed s1 uploadId err
                          | Inr (fls, filePath) \<Rightarrow>
                              (let s2 = s1\<lparr>files := fls\<rparr>
                               in case peekZip yauzl (files s2) filePath of
                                    Inl err \<Rightarrow> finalize_failed s2 uploadId err
                                  | Inr names \<Rightarrow>
                                      (let finalHash = ''dummy_hash'';
                                           s3 = s2\<lparr>uploads := update_upload (uploads s2) uploadId
                                                  (\<lambda>u. u\<lparr>u_status := COMPLETED,
                                                          u_finalHash := Some finalHash\<rparr>)\<rparr>
                                       in (s3, (200, CompletedJson names finalHash))))))))"

text \<open>
  What a finalize call that reaches the end of its \<open>try\<close> block has gone through: it
  won the transition, the count of \<open>COMPLETED\<close> chunk records equals \<open>totalChunks\<close>, the
  scratch file existed and was renamed (\<open>fls\<close> are the files after the rename), and the
  archive reader accepted the renamed file and gave \<open>names\<close>.
\<close>

definition all_steps_succeed ::
  "string set \<Rightarrow> (byte list \<Rightarrow> string + string list) \<Rightarrow> db \<Rightarrow> string \<Rightarrow> upload \<Rightarrow> fs \<Rightarrow> string list \<Rightarrow> bool" where
  "all_steps_succeed dirs yauzl s uid up fls names \<longleftrightarrow>
     0 < fst (updateMany_status (uploads s) uid UPLOADING PROCESSING)
     \<and> findUnique_upload (uploads s) uid = Some up
     \<and> int (length (completed_chunks (chunks s) uid)) = u_totalChunks up
     \<and> files s (getFilePath uid) \<noteq> None
     \<and> (\<exists>filePath c entries.
           assembleFile dirs (files s) uid (u_filename up) = Inr (fls, filePath)
         \<and> fls filePath = Some c \<and> yauzl c = Inr entries
         \<and> peekZip yauzl fls filePath = Inr names)"

subsection \<open>POST /cleanup\<close>

definition cleanup_one :: "upload \<Rightarrow> db \<Rightarrow> db" where
  "cleanup_one upload s =
     (let cs = filter (\<lambda>c. c_uploadId c \<noteq> u_id upload) (chunks s);
          ups = filter (\<lambda>u. u_id u \<noteq> u_id upload) (uploads s);
          filePath = getFilePath (u_id upload);
          fls = (if files s filePath \<noteq> None then (files s)(filePath := None) else files s)
      in \<lparr>uploads = ups, chunks = cs, files = fls\<rparr>)"

definition orphaned_uploads :: "db \<Rightarrow> int \<Rightarrow> upload list" where
  "orphaned_uploads s now =
     (let cutoff = now - 24 * 60 * 60 * 1000
      in filter (\<lambda>u. u_status u = UPLOADING \<and> u_createdAt u < cutoff) (uploads s))"

definition cleanup_handler :: "db \<Rightarrow> int \<Rightarrow> db \<times> response" where
  "cleanup_handler s now =
     (let orphaned = orphaned_uploads s now
      in (fold cleanup_one orphaned s, (200, CleanedJson (length orphaned))))"



subsection \<open>A sequence of chunk writes to one session\<close>

text \<open>
  The writes the chunk handler issues for a list of (index, payload) pairs of one session,
  in the order of the list: each at offset \<open>index * CHUNK_SIZE\<close>.
\<close>

definition write_chunks :: "fs \<Rightarrow> string \<Rightarrow> (nat \<times> byte list) list \<Rightarrow> fs" where
  "write_chunks fls uploadId ws =
     fold (\<lambda>(index, buffer) fl.
             fst (writeChunk fl uploadId index buffer (index * CHUNK_SIZE_server))) ws fls"

section \<open>uploader.ts: the transfer scheduler of the client\<close>

text \<open>
  Chunk states and transfer states share names with the server's \<open>Status\<close>; the
  constructors carry a suffix (\<open>_c\<close> chunk, \<open>_t\<close> transfer) where they clash.
\<close>

datatype ChunkState = PENDING | UPLOADING_c | SUCCESS | ERROR_c

datatype TransferState = IDLE | UPLOADING_t | COMPLETED_t | ERROR_t

record ChunkStatus =
  cs_index :: nat
  cs_status :: ChunkState
  cs_attempts :: nat

text \<open>
  A snapshot handed to \<open>onProgress\<close>.  Speed and ETA are wall-clock quantities and are
  left out.
\<close>

record UploadStatus =
  us_total :: nat
  us_uploaded :: int
  us_chunks :: "ChunkStatus list"
  us_status :: TransferState

datatype request = POST_init | POST_chunk nat | POST_finalize

text \<open>
  The uploader object (\<open>file_u\<close>, \<open>uploadId_u\<close> and \<open>chunks_u\<close> are its \<open>file\<close>,
  \<open>uploadId\<close> and \<open>chunks\<close>).  Two fields are added to those of the class: \<open>reported\<close>, the
  snapshots handed to \<open>onProgress\<close> so far (latest last), and \<open>sent\<close>, the requests
  issued to the server so far.
\<close>

record Uploader =
  file_u :: "byte list"
  uploadId_u :: "string option"
  chunks_u :: "ChunkStatus list"
  activeRequestCount :: int
  queue :: "nat list"
  aborted :: bool
  loadedBytes :: int
  reported :: "UploadStatus list"
  sent :: "request list"

text \<open>
  The network as the client sees it: the answer to the handshake (\<open>None\<close> when the
  request fails), whether the \<open>k\<close>-th transmission of chunk \<open>i\<close> succeeds, and whether
  the finalize request succeeds.
\<close>

record network =
  net_init :: "(string \<times> nat list) option"
  net_chunk :: "nat \<Rightarrow> nat \<Rightarrow> bool"
  net_finalize :: bool

definition new_Uploader :: "byte list \<Rightarrow> Uploader" where
  "new_Uploader f =
     \<lparr>file_u = f, uploadId_u = None,
      chunks_u = map (\<lambda>i. \<lparr>cs_index = i, cs_status = PENDING, cs_attempts = 0\<rparr>)
                   [0 ..< totalChunks_of (length f)],
      activeRequestCount = 0, queue = [], aborted = False, loadedBytes = 0,
      reported = [], sent = []\<rparr>"

definition updateStatus :: "Uploader \<Rightarrow> TransferState \<Rightarrow> Uploader" where
  "updateStatus u st =
     u\<lparr>reported := reported u @
          [\<lparr>us_total = length (file_u u), us_uploaded = loadedBytes u,
            us_chunks = chunks_u u, us_status = st\<rparr>]\<rparr>"

definition set_chunk :: "Uploader \<Rightarrow> nat \<Rightarrow> ChunkState \<Rightarrow> Uploader" where
  "set_chunk u index st =
     u\<lparr>chunks_u := (chunks_u u)[index := (chunks_u u ! index)\<lparr>cs_status := st\<rparr>]\<rparr>"

text \<open>
  \<open>axiosRetry(fn, retries, delay)\<close>: \<open>fn k\<close> tells whether the call numbered \<open>k\<close>
  succeeds.  The result is whether the promise resolves, and the number of calls made.
  The delay between calls is wall-clock time and is left out.
\<close>

fun axiosRetry :: "(nat \<Rightarrow> bool) \<Rightarrow> nat \<Rightarrow> nat \<Rightarrow> bool \<times> nat" where
  "axiosRetry fn 0 k = (fn k, Suc k)"
| "axiosRetry fn (Suc retries) k =
     (if fn k then (True, Suc k) else axiosRetry fn retries (Suc k))"

text \<open>
  \<open>handshake\<close>: \<open>Inl\<close> is the rejected promise, with the state at that point.
\<close>

definition mark_existing :: "nat \<Rightarrow> Uploader \<Rightarrow> Uploader" where
  "mark_existing index u =
     (if index < length (chunks_u u)
      then (set_chunk u index SUCCESS)\<lparr>loadedBytes := loadedBytes u + getChunkSize (file_u u) index\<rparr>
      else u)"

definition handshake :: "network \<Rightarrow> Uploader \<Rightarrow> Uploader + Uploader" where
  "handshake net u =
     (let u1 = u\<lparr>sent := sent u @ [POST_init]\<rparr>
      in case net_init net of
           None \<Rightarrow> Inl u1
         | Some (uid, existingChunks) \<Rightarrow>
             Inr (updateStatus (fold mark_existing existingChunks (u1\<lparr>uploadId_u := Some uid\<rparr>))
                    UPLOADING_t))"

text \<open>
  \<open>uploadChunk\<close> in two halves: up to its first \<open>await\<close>, and from the settling of
  \<open>axiosRetry\<close> to the end of the \<open>finally\<close> block.  The uploader's fields do not change
  in between.
\<close>

definition uploadChunk_begin :: "Uploader \<Rightarrow> nat \<Rightarrow> Uploader" where
  "uploadChunk_begin u index =
     updateStatus
       (set_chunk (u\<lparr>activeRequestCount := activeRequestCount u + 1\<rparr>) index UPLOADING_c)
       UPLOADING_t"

definition uploadChunk_end :: "network \<Rightarrow> Uploader \<Rightarrow> nat \<Rightarrow> Uploader" where
  "uploadChunk_end net u index =
     (let chunk = getChunk (file_u u) index;
          (ok, calls) = axiosRetry (net_chunk net index) 10 0;
          u1 = u\<lparr>sent := sent u @ replicate calls (POST_chunk index)\<rparr>;
          u2 = (if ok
                then (set_chunk u1 index SUCCESS)\<lparr>loadedBytes := loadedBytes u1 + int (length chunk)\<rparr>
                else (set_chunk u1 index ERROR_c)\<lparr>aborted := True\<rparr>)
      in updateStatus (u2\<lparr>activeRequestCount := activeRequestCount u2 - 1\<rparr>) UPLOADING_t)"

text \<open>
  A worker is at the head of its loop, waiting for the chunk it dispatched, or has
  returned.  \<open>resume net w\<close> runs worker \<open>w\<close> from where it stands to its next \<open>await\<close>:
  the event loop runs one continuation at a time.
\<close>

datatype worker_pc = LoopHead | Awaiting nat | Returned

definition resume :: "network \<Rightarrow> nat \<Rightarrow> Uploader \<times> worker_pc list \<Rightarrow> Uploader \<times> worker_pc list" where
  "resume net w st =
     (let (u, pcs) = st
      in if length pcs \<le> w then st
         else
           (case pcs ! w of
              LoopHead \<Rightarrow>
                (if \<not> aborted u \<and> queue u \<noteq> []
                 then
                   (let index = hd (queue u);
                        u1 = u\<lparr>queue := tl (queue u)\<rparr>
                    in (uploadChunk_begin u1 index, pcs[w := Awaiting index]))
                 else (u, pcs[w := Returned]))
            | Awaiting index \<Rightarrow> (uploadChunk_end net u index, pcs[w := LoopHead])
            | Returned \<Rightarrow> st))"

text \<open>
  \<open>processQueue\<close>: the workers are started in order, each running to its first
  \<open>await\<close>; after that the schedule \<open>sched\<close> tells which worker's awaited operation
  settles next.  The result is \<open>None\<close> when the schedule ends before every worker has
  returned.
\<close>

definition processQueue :: "network \<Rightarrow> nat list \<Rightarrow> Uploader \<Rightarrow> Uploader option" where
  "processQueue net sched u =
     (let st0 = (u, replicate CONCURRENCY LoopHead);
          st1 = fold (resume net) [0 ..< CONCURRENCY] st0;
          (u2, pcs) = fold (resume net) sched st1
      in if list_all (\<lambda>pc. pc = Returned) pcs then Some u2 else None)"

definition finalize :: "network \<Rightarrow> Uploader \<Rightarrow> Uploader + Uploader" where
  "finalize net u =
     (let u1 = u\<lparr>sent := sent u @ [POST_finalize]\<rparr>
      in if net_finalize net then Inr (updateStatus u1 COMPLETED_t) else Inl u1)"

definition start :: "network \<Rightarrow> nat list \<Rightarrow> Uploader \<Rightarrow> Uploader option" where
  "start net sched u =
     (case handshake net u of
        Inl u1 \<Rightarrow> Some (updateStatus u1 ERROR_t)
      | Inr u1 \<Rightarrow>
          (let u2 = u1\<lparr>queue := map cs_index (filter (\<lambda>c. cs_status c \<noteq> SUCCESS) (chunks_u u1))\<rparr>
           in case processQueue net sched u2 of
                None \<Rightarrow> None
              | Some u3 \<Rightarrow>
                  (if \<not> aborted u3 \<and> list_all (\<lambda>c. cs_status c = SUCCESS) (chunks_u u3)
                   then (case finalize net u3 of
                           Inl u4 \<Rightarrow> Some (updateStatus u4 ERROR_t)
                         | Inr u4 \<Rightarrow> Some u4)
                   else Some u3)))"


text \<open>
  What holds of the uploader from the end of a successful handshake to the end of
  \<open>processQueue\<close>: the latest snapshot handed to \<open>onProgress\<close> has status
  \<open>UPLOADING\<close>, and no finalize request has been sent.
\<close>

definition settled :: "Uploader \<Rightarrow> bool" where
  "settled u \<longleftrightarrow> reported u \<noteq> [] \<and> us_status (last (reported u)) = UPLOADING_t
     \<and> POST_finalize \<notin> set (sent u)"

section \<open>Example data\<close>

text \<open>Small concrete rows and states on which the theorems below are exercised.\<close>

definition ex_upload :: "string \<Rightarrow> Status \<Rightarrow> int \<Rightarrow> upload" where
  "ex_upload i st t =
     \<lparr>u_id = i, u_filename = ''a.zip'', u_totalSize = 12582912, u_totalChunks = 3,
      u_status = st, u_finalHash = None, u_createdAt = t\<rparr>"

definition ex_chunk :: "string \<Rightarrow> nat \<Rightarrow> Status \<Rightarrow> chunk" where
  "ex_chunk i k st = \<lparr>c_uploadId = i, c_chunkIndex = k, c_status = st\<rparr>"

definition ex_db :: "upload list \<Rightarrow> chunk list \<Rightarrow> db" where
  "ex_db ups cs = \<lparr>uploads = ups, chunks = cs, files = Map.empty\<rparr>"

definition no_zip :: "byte list \<Rightarrow> string + string list" where
  "no_zip c = Inl ''end of central directory record signature not found''"

definition ex_zip :: "byte list \<Rightarrow> string + string list" where
  "ex_zip c = Inr [''docs/'', ''readme.txt'']"

definition ex_ready_db :: db where
  "ex_ready_db =
     \<lparr>uploads = [ex_upload ''u1'' UPLOADING 0],
      chunks = [ex_chunk ''u1'' 0 COMPLETED, ex_chunk ''u1'' 1 COMPLETED,
                ex_chunk ''u1'' 2 COMPLETED],
      files = [getFilePath ''u1'' \<mapsto> []]\<rparr>"

definition ex_init_req :: init_req where
  "ex_init_req = \<lparr>req_filename = Some ''a.zip'', req_totalSize = Some 12582912,
     req_totalChunks = Some 3\<rparr>"


text \<open>A network on which the handshake succeeds and every transmission of a chunk fails.\<close>

definition ex_net_fail :: network where
  "ex_net_fail = \<lparr>net_init = Some (''u1'', []), net_chunk = (\<lambda>i k. False), net_finalize = True\<rparr>"

section \<open>Finalize: the conditional transition is the only guard\<close>

lemma updateMany_count_zero:
  assumes "distinct (map u_id ups)" "findUnique_upload ups uploadId = Some up" "u_status up \<noteq> old"
  shows "fst (updateMany_status ups uploadId old new) = 0"
proof -
  have "\<And>u. u \<in> set ups \<Longrightarrow> u_id u = uploadId \<Longrightarrow> u = up"
  proof -
    fix u assume u: "u \<in> set ups" "u_id u = uploadId"
    from assms(2) have "up \<in> set ups" "u_id up = uploadId"
      by (auto simp: findUnique_upload_def find_Some_iff)
    with u assms(1) show "u = up"
      by (metis distinct_map inj_onD)
  qed
  with assms(3) have "filter (\<lambda>u. u_id u = uploadId \<and> u_status u = old) ups = []"
    by (auto simp: filter_empty_conv)
  then show ?thesis by (simp add: updateMany_status_def)
qed

lemma finalize_count_zero:
  assumes "fst (updateMany_status (uploads s) uploadId UPLOADING PROCESSING) = 0"
  shows "finalize_handler dirs yauzl s uploadId =
     (case findUnique_upload (uploads s) uploadId of
        None \<Rightarrow> (s, (404, ErrorJson ''Upload not found''))
      | Some upload \<Rightarrow>
          (s, (200, StatusJson (u_status upload) ''Upload already finalized or processing'')))"
  using assms
  by (cases "updateMany_status (uploads s) uploadId UPLOADING PROCESSING")
     (simp add: finalize_handler_def)

text \<open>
  C1.  A finalize call on an existing session whose status is not \<open>UPLOADING\<close>: the
  conditional update changes zero rows, the state is returned as it was (no assembly, no
  transition), and the answer is the 200 response carrying the session's current status.
  Conversely, whenever a finalize call changes the state at all, its conditional update
  changed a row.
\<close>

theorem finalize_guard:
  assumes "wf_db s"
    and "findUnique_upload (uploads s) uploadId = Some up"
    and "u_status up \<noteq> UPLOADING"
  shows "fst (updateMany_status (uploads s) uploadId UPLOADING PROCESSING) = 0
     \<and> finalize_handler dirs yauzl s uploadId =
         (s, (200, StatusJson (u_status up) ''Upload already finalized or processing''))
     \<and> (\<forall>s' uid. fst (finalize_handler dirs yauzl s' uid) \<noteq> s'
           \<longrightarrow> 0 < fst (updateMany_status (uploads s') uid UPLOADING PROCESSING))"
proof -
  have c: "fst (updateMany_status (uploads s) uploadId UPLOADING PROCESSING) = 0"
    using assms by (intro updateMany_count_zero) (auto simp: wf_db_def)
  have r: "finalize_handler dirs yauzl s uploadId =
      (s, (200, StatusJson (u_status up) ''Upload already finalized or processing''))"
    using c assms(2) by (simp add: finalize_count_zero)
  have g: "0 < fst (updateMany_status (uploads s') uid UPLOADING PROCESSING)"
    if "fst (finalize_handler dirs yauzl s' uid) \<noteq> s'" for s' uid
  proof (rule ccontr)
    assume "\<not> 0 < fst (updateMany_status (uploads s') uid UPLOADING PROCESSING)"
    then have "fst (updateMany_status (uploads s') uid UPLOADING PROCESSING) = 0" by simp
    then have "fst (finalize_handler dirs yauzl s' uid) = s'"
      by (simp add: finalize_count_zero split: option.splits)
    with that show False by simp
  qed
  from c r g show ?thesis by blast
qed

theorem finalize_guard_witness:
  "wf_db (ex_db [ex_upload ''u1'' COMPLETED 0] [])
   \<and> findUnique_upload (uploads (ex_db [ex_upload ''u1'' COMPLETED 0] [])) ''u1''
        = Some (ex_upload ''u1'' COMPLETED 0)
   \<and> u_status (ex_upload ''u1'' COMPLETED 0) \<noteq> UPLOADING
   \<and> finalize_handler {} no_zip (ex_db [ex_upload ''u1'' COMPLETED 0] []) ''u1''
        = (ex_db [ex_upload ''u1'' COMPLETED 0] [],
           (200, StatusJson COMPLETED ''Upload already finalized or processing''))
   \<and> fst (finalize_handler {} no_zip (ex_db [ex_upload ''u1'' UPLOADING 0] []) ''u1'')
        \<noteq> ex_db [ex_upload ''u1'' UPLOADING 0] []
   \<and> 0 < fst (updateMany_status (uploads (ex_db [ex_upload ''u1'' UPLOADING 0] [])) ''u1''
              UPLOADING PROCESSING)"
proof -
  let ?s = "ex_db [ex_upload ''u1'' COMPLETED 0] []"
  let ?t = "ex_db [ex_upload ''u1'' UPLOADING 0] []"
  have h1: "wf_db ?s"
    by (simp add: wf_db_def ex_db_def ex_upload_def)
  have h2: "findUnique_upload (uploads ?s) ''u1'' = Some (ex_upload ''u1'' COMPLETED 0)"
    by (simp add: findUnique_upload_def ex_db_def ex_upload_def)
  have h3: "u_status (ex_upload ''u1'' COMPLETED 0) \<noteq> UPLOADING"
    by (simp add: ex_upload_def)
  have h4: "fst (finalize_handler {} no_zip ?t ''u1'') \<noteq> ?t"
    by (simp add: finalize_handler_def updateMany_status_def findUnique_upload_def
        completed_chunks_def finalize_failed_def update_upload_def ex_db_def ex_upload_def)
  from finalize_guard [OF h1 h2 h3, where dirs = "{}" and yauzl = no_zip] h1 h2 h3 h4 show ?thesis
    by (simp add: ex_upload_def)
qed

section \<open>Handshake: validation of the request\<close>

text \<open>
  C10.  A handshake whose filename is absent, or whose totalSize or totalChunks is absent
  or 0, is answered with 400 "Missing required fields" and leaves the state as it was, so
  no session is created.  The request the client sends for a zero-byte file has
  totalSize 0 and totalChunks 0 and is one of these.
\<close>

theorem init_rejects_missing_fields:
  assumes "req_filename req = None \<or> req_totalSize req = None \<or> req_totalSize req = Some 0
     \<or> req_totalChunks req = None \<or> req_totalChunks req = Some 0"
  shows "init_handler s req newId now = (s, (400, ErrorJson ''Missing required fields''))"
  using assms by (auto simp: init_handler_def falsy_str_def falsy_num_def)

theorem init_rejects_missing_fields_witness:
  "req_totalSize \<lparr>req_filename = Some ''empty.zip'', req_totalSize = Some 0,
        req_totalChunks = Some (int (totalChunks_of 0))\<rparr> = Some 0
   \<and> init_handler (ex_db [] [])
        \<lparr>req_filename = Some ''empty.zip'', req_totalSize = Some 0,
         req_totalChunks = Some (int (totalChunks_of 0))\<rparr> ''u1'' 0
       = (ex_db [] [], (400, ErrorJson ''Missing required fields''))"
  using init_rejects_missing_fields
    [of "\<lparr>req_filename = Some ''empty.zip'', req_totalSize = Some 0,
          req_totalChunks = Some (int (totalChunks_of 0))\<rparr>" "ex_db [] []" "''u1''" 0]
  by simp


section \<open>The final path of an assembled file\<close>

text \<open>
  For a filename without a separator the final path is the plain concatenation
  \<open>UPLOAD_DIR/id_filename\<close>, it lies in the upload directory, and the rename succeeds
  whenever the scratch file exists.
\<close>

lemma split_path_nonempty: "split_path p \<noteq> []"
  by (induction p) (auto split: list.splits)

lemma split_path_no_separator: "CHR ''/'' \<notin> set seg \<Longrightarrow> split_path seg = [seg]"
  by (induction seg) auto

lemma split_path_append: "split_path (a @ ''/'' @ b) = split_path a @ split_path b"
proof (induction a)
  case Nil
  show ?case by simp
next
  case (Cons c cs)
  obtain seg segs where s: "split_path cs = seg # segs"
    using split_path_nonempty [of cs] by (cases "split_path cs") auto
  with Cons show ?case by simp
qed

lemma plain_segment:
  assumes "CHR ''_'' \<in> set seg"
  shows "seg \<noteq> []" "seg \<noteq> ''.''" "seg \<noteq> ''..''"
  using assms by auto

lemma path_join_plain:
  assumes "CHR ''/'' \<notin> set seg" "CHR ''_'' \<in> set seg"
  shows "path_join UPLOAD_DIR seg = UPLOAD_DIR @ ''/'' @ seg"
    and "parent_dir (UPLOAD_DIR @ ''/'' @ seg) = UPLOAD_DIR"
    and "last (UPLOAD_DIR @ ''/'' @ seg) \<noteq> CHR ''/''"
    and "UPLOAD_DIR @ ''/'' @ seg \<noteq> UPLOAD_DIR"
proof -
  note ps = plain_segment [OF assms(2)]
  have sp: "split_path (UPLOAD_DIR @ ''/'' @ seg) = ['''', ''app'', ''backend'', ''uploads'', seg]"
    unfolding split_path_append split_path_no_separator [OF assms(1)]
    by (simp add: UPLOAD_DIR_def)
  have l: "last (UPLOAD_DIR @ ''/'' @ seg) = last seg"
    using ps(1) by simp
  with assms(1) ps(1) show t: "last (UPLOAD_DIR @ ''/'' @ seg) \<noteq> CHR ''/''"
    by (metis last_in_set)
  have "normalizeString (UPLOAD_DIR @ ''/'' @ seg) False = ''app/backend/uploads/'' @ seg"
    unfolding normalizeString_def sp using ps by (simp add: normalize_step_def)
  then have "path_normalize (UPLOAD_DIR @ ''/'' @ seg) = UPLOAD_DIR @ ''/'' @ seg"
    unfolding path_normalize_def using t by (simp add: UPLOAD_DIR_def Let_def)
  then show "path_join UPLOAD_DIR seg = UPLOAD_DIR @ ''/'' @ seg"
    using ps(1) by (simp add: path_join_def UPLOAD_DIR_def)
  show "parent_dir (UPLOAD_DIR @ ''/'' @ seg) = UPLOAD_DIR"
    unfolding parent_dir_def sp by (simp add: UPLOAD_DIR_def)
  show "UPLOAD_DIR @ ''/'' @ seg \<noteq> UPLOAD_DIR"
    by simp
qed

lemma assembleFile_plain:
  assumes "CHR ''/'' \<notin> set uid" "CHR ''/'' \<notin> set name"
    and "UPLOAD_DIR @ ''/'' @ uid @ ''_'' @ name \<notin> dirs"
    and "fls (getFilePath uid) = Some c"
  shows "assembleFile dirs fls uid name
     = Inr ((fls(getFilePath uid := None))(UPLOAD_DIR @ ''/'' @ uid @ ''_'' @ name \<mapsto> c),
            UPLOAD_DIR @ ''/'' @ uid @ ''_'' @ name)"
proof -
  have "CHR ''/'' \<notin> set (uid @ ''_'' @ name)" "CHR ''_'' \<in> set (uid @ ''_'' @ name)"
    using assms(1,2) by simp_all
  note pj = path_join_plain [OF this]
  show ?thesis
    unfolding assembleFile_def Let_def pj(1) using pj(2-4) assms(3,4) by simp
qed


text \<open>
  A filename with a separator names a directory below the upload directory, which the code
  never creates: the rename fails.  Dot segments are resolved before the rename.
\<close>

lemma assembleFile_subdirectory:
  "assembleFile {} [getFilePath ''u1'' \<mapsto> c] ''u1'' ''dir/a.zip''
     = Inl (rename_error ''ENOENT: no such file or directory'' ''/app/backend/uploads/u1.bin''
              ''/app/backend/uploads/u1_dir/a.zip'')"
  by (simp add: assembleFile_def path_join_def path_normalize_def normalizeString_def
      normalize_step_def parent_dir_def getFilePath_def UPLOAD_DIR_def Let_def)

lemma assembleFile_dot_segments:
  "assembleFile {} [getFilePath ''u1'' \<mapsto> c] ''u1'' ''x/../y.zip''
     = Inr ([getFilePath ''u1'' \<mapsto> c](getFilePath ''u1'' := None,
              ''/app/backend/uploads/y.zip'' \<mapsto> c), ''/app/backend/uploads/y.zip'')"
  by (simp add: assembleFile_def path_join_def path_normalize_def normalizeString_def
      normalize_step_def parent_dir_def getFilePath_def UPLOAD_DIR_def Let_def)

section \<open>Finalize: the winner verifies the chunk count\<close>

lemma findUnique_map:
  assumes "\<And>u. u_id (f u) = u_id u"
  shows "findUnique_upload (map f ups) uid = map_option f (findUnique_upload ups uid)"
  unfolding findUnique_upload_def
  by (induction ups) (auto simp: assms)

lemma updateMany_count_pos:
  assumes "findUnique_upload ups uid = Some up" "u_status up = old"
  shows "0 < fst (updateMany_status ups uid old new)"
proof -
  from assms have "up \<in> set ups" "u_id up = uid"
    by (auto simp: findUnique_upload_def find_Some_iff)
  with assms(2) have "up \<in> set (filter (\<lambda>u. u_id u = uid \<and> u_status u = old) ups)"
    by simp
  then have "filter (\<lambda>u. u_id u = uid \<and> u_status u = old) ups \<noteq> []"
    by (metis empty_iff list.set(1))
  then show ?thesis by (simp add: updateMany_status_def)
qed

lemma updateMany_count_one:
  assumes "distinct (map u_id ups)" "findUnique_upload ups uid = Some up" "u_status up = old"
  shows "fst (updateMany_status ups uid old new) = 1"
proof -
  have "length (filter (\<lambda>u. u_id u = uid) ups) \<le> 1"
    using assms(1)
    by (induction ups) (auto simp: filter_empty_conv image_iff)
  moreover have "length (filter (\<lambda>u. u_id u = uid \<and> u_status u = old) ups)
      \<le> length (filter (\<lambda>u. u_id u = uid) ups)"
    by (induction ups) auto
  moreover have "0 < fst (updateMany_status ups uid old new)"
    using assms(2,3) by (rule updateMany_count_pos)
  ultimately show ?thesis
    unfolding updateMany_status_def fst_conv by linarith
qed

lemma failed_after_processing:
  "update_upload (snd (updateMany_status ups uid UPLOADING PROCESSING)) uid
     (\<lambda>u. u\<lparr>u_status := FAILED\<rparr>)
   = update_upload ups uid (\<lambda>u. u\<lparr>u_status := FAILED\<rparr>)"
  by (simp add: update_upload_def updateMany_status_def)


lemma finalize_winner_mismatch:
  assumes "findUnique_upload (uploads s) uid = Some up" "u_status up = UPLOADING"
    and "int (length (completed_chunks (chunks s) uid)) \<noteq> u_totalChunks up"
  shows "finalize_handler dirs yauzl s uid =
     (s\<lparr>uploads := update_upload (uploads s) uid (\<lambda>u. u\<lparr>u_status := FAILED\<rparr>)\<rparr>,
      (500, ErrorJson (''Missing chunks. Expected '' @ show_int (u_totalChunks up)
                         @ '', got '' @ show_nat (length (completed_chunks (chunks s) uid)))))"
proof -
  obtain n ups where um: "updateMany_status (uploads s) uid UPLOADING PROCESSING = (n, ups)"
    by (cases "updateMany_status (uploads s) uid UPLOADING PROCESSING")
  have n: "n \<noteq> 0"
    using updateMany_count_pos [OF assms(1,2), of PROCESSING] um by simp
  have ups: "ups = map (\<lambda>u. if u_id u = uid \<and> u_status u = UPLOADING
                            then u\<lparr>u_status := PROCESSING\<rparr> else u) (uploads s)"
    using um by (simp add: updateMany_status_def)
  have fu: "findUnique_upload ups uid = Some (up\<lparr>u_status := PROCESSING\<rparr>)"
  proof -
    from assms(1) have "u_id up = uid"
      by (auto simp: findUnique_upload_def find_Some_iff)
    with assms(1,2) show ?thesis
      unfolding ups by (subst findUnique_map) auto
  qed
  have fl: "update_upload ups uid (\<lambda>u. u\<lparr>u_status := FAILED\<rparr>)
      = update_upload (uploads s) uid (\<lambda>u. u\<lparr>u_status := FAILED\<rparr>)"
    using failed_after_processing [of "uploads s" uid] um by simp
  have "finalize_handler dirs yauzl s uid = finalize_failed (s\<lparr>uploads := ups\<rparr>) uid
           (''Missing chunks. Expected '' @ show_int (u_totalChunks up)
                         @ '', got '' @ show_nat (length (completed_chunks (chunks s) uid)))"
    unfolding finalize_handler_def um using n fu assms(3) by simp
  then show ?thesis
    by (simp add: finalize_failed_def fl)
qed


lemma completed_after_processing:
  "update_upload (snd (updateMany_status ups uid UPLOADING PROCESSING)) uid
     (\<lambda>u. u\<lparr>u_status := COMPLETED, u_finalHash := Some h\<rparr>)
   = update_upload ups uid (\<lambda>u. u\<lparr>u_status := COMPLETED, u_finalHash := Some h\<rparr>)"
  by (simp add: update_upload_def updateMany_status_def)

lemma completed_rows:
  "list_all (\<lambda>u. u_id u = uid \<longrightarrow> u_status u = COMPLETED \<and> u_finalHash u = Some h)
     (update_upload ups uid (\<lambda>u. u\<lparr>u_status := COMPLETED, u_finalHash := Some h\<rparr>))"
  by (induction ups) (simp_all add: update_upload_def)

lemma finalize_failed_hashes:
  "map u_finalHash (uploads (fst (finalize_failed t uid msg))) = map u_finalHash (uploads t)"
  by (simp add: finalize_failed_def update_upload_def)

lemma assembleFile_Inr:
  assumes "assembleFile dirs fls uid name = Inr (fls', filePath)"
  shows "fls (getFilePath uid) \<noteq> None"
    and "filePath = path_join UPLOAD_DIR (uid @ ''_'' @ name)"
    and "fls' filePath = fls (getFilePath uid)"
  using assms by (auto simp: assembleFile_def Let_def split: option.splits if_splits)

lemma peekZip_Inr:
  assumes "peekZip yauzl fls filePath = Inr names"
  shows "\<exists>c entries. fls filePath = Some c \<and> yauzl c = Inr entries
           \<and> names = peek_entries [] entries"
  using assms by (auto simp: peekZip_def split: option.splits sum.splits)

lemma finalize_hash_cases:
  assumes "finalize_handler dirs yauzl s uid = (s', r)"
    and "map u_finalHash (uploads s') \<noteq> map u_finalHash (uploads s)"
  shows "\<exists>up fls names. all_steps_succeed dirs yauzl s uid up fls names
     \<and> r = (200, CompletedJson names ''dummy_hash'')
     \<and> files s' = fls
     \<and> list_all (\<lambda>u. u_id u = uid \<longrightarrow> u_status u = COMPLETED
              \<and> u_finalHash u = Some ''dummy_hash'') (uploads s')"
proof -
  obtain n ups where um: "updateMany_status (uploads s) uid UPLOADING PROCESSING = (n, ups)"
    by (cases "updateMany_status (uploads s) uid UPLOADING PROCESSING")
  have ups: "map u_finalHash ups = map u_finalHash (uploads s)"
    using um by (auto simp: updateMany_status_def)
  have ups_def: "ups = map (\<lambda>u. if u_id u = uid \<and> u_status u = UPLOADING
                            then u\<lparr>u_status := PROCESSING\<rparr> else u) (uploads s)"
    using um by (simp add: updateMany_status_def)
  note fl = finalize_failed_hashes
  show ?thesis
  proof (cases "n = 0")
    case True
    then have "fst (updateMany_status (uploads s) uid UPLOADING PROCESSING) = 0"
      using um by simp
    then have "fst (finalize_handler dirs yauzl s uid) = s"
      by (simp add: finalize_count_zero split: option.splits)
    with assms show ?thesis by simp
  next
    case False
    let ?s1 = "s\<lparr>uploads := ups\<rparr>"
    show ?thesis
    proof (cases "findUnique_upload ups uid")
      case None
      have "s' = ?s1"
        using assms(1) False None unfolding finalize_handler_def um by simp
      with ups assms(2) show ?thesis by simp
    next
      case (Some upload)
      then obtain up where up: "findUnique_upload (uploads s) uid = Some up"
        and same: "u_totalChunks upload = u_totalChunks up" "u_filename upload = u_filename up"
        unfolding ups_def by (subst (asm) findUnique_map) auto
      show ?thesis
      proof (cases "int (length (completed_chunks (chunks s) uid)) \<noteq> u_totalChunks upload")
        case True
        have "s' = fst (finalize_failed ?s1 uid
            (''Missing chunks. Expected '' @ show_int (u_totalChunks upload)
               @ '', got '' @ show_nat (length (completed_chunks (chunks s) uid))))"
          using assms(1) False Some True unfolding finalize_handler_def um by simp
        with ups fl assms(2) show ?thesis by simp
      next
        case eq: False
        show ?thesis
        proof (cases "assembleFile dirs (files s) uid (u_filename upload)")
          case (Inl err)
          have "s' = fst (finalize_failed ?s1 uid err)"
            using assms(1) False Some eq Inl unfolding finalize_handler_def um by simp
          with ups fl assms(2) show ?thesis by simp
        next
          case (Inr p)
          obtain fls filePath where p: "p = (fls, filePath)" by (cases p)
          show ?thesis
          proof (cases "peekZip yauzl fls filePath")
            case (Inl err)
            have "s' = fst (finalize_failed (?s1\<lparr>files := fls\<rparr>) uid err)"
              using assms(1) False Some eq Inr p Inl unfolding finalize_handler_def um by simp
            with ups fl assms(2) show ?thesis by simp
          next
            case names: (Inr names)
            have res: "s' = ?s1\<lparr>files := fls, uploads := update_upload ups uid
                    (\<lambda>u. u\<lparr>u_status := COMPLETED, u_finalHash := Some ''dummy_hash''\<rparr>)\<rparr>"
              "r = (200, CompletedJson names ''dummy_hash'')"
              using assms(1) False Some eq Inr p names unfolding finalize_handler_def um
              by (simp_all add: Let_def)
            have asm: "assembleFile dirs (files s) uid (u_filename up) = Inr (fls, filePath)"
              using Inr p same by simp
            from peekZip_Inr [OF names] obtain c entries where
              ce: "fls filePath = Some c" "yauzl c = Inr entries" by blast
            have "all_steps_succeed dirs yauzl s uid up fls names"
              unfolding all_steps_succeed_def
              using False um up eq same asm assembleFile_Inr(1) [OF asm] ce names
              by auto
            moreover have "files s' = fls"
              using res(1) by simp
            moreover have "list_all (\<lambda>u. u_id u = uid \<longrightarrow> u_status u = COMPLETED
                \<and> u_finalHash u = Some ''dummy_hash'') (uploads s')"
              using res(1) completed_rows [of uid "''dummy_hash''" ups] by simp
            ultimately show ?thesis
              using res(2) by blast
          qed
        qed
      qed
    qed
  qed
qed

lemma finalize_success:
  assumes "all_steps_succeed dirs yauzl s uid up fls names"
  shows "finalize_handler dirs yauzl s uid =
     (s\<lparr>uploads := update_upload (uploads s) uid
            (\<lambda>u. u\<lparr>u_status := COMPLETED, u_finalHash := Some ''dummy_hash''\<rparr>),
        files := fls\<rparr>,
      (200, CompletedJson names ''dummy_hash''))"
proof -
  obtain n ups where um: "updateMany_status (uploads s) uid UPLOADING PROCESSING = (n, ups)"
    by (cases "updateMany_status (uploads s) uid UPLOADING PROCESSING")
  from assms obtain filePath where
    n: "n \<noteq> 0" and up: "findUnique_upload (uploads s) uid = Some up"
    and cnt: "int (length (completed_chunks (chunks s) uid)) = u_totalChunks up"
    and asm: "assembleFile dirs (files s) uid (u_filename up) = Inr (fls, filePath)"
    and pk: "peekZip yauzl fls filePath = Inr names"
    unfolding all_steps_succeed_def um by auto
  have ups_def: "ups = map (\<lambda>u. if u_id u = uid \<and> u_status u = UPLOADING
                            then u\<lparr>u_status := PROCESSING\<rparr> else u) (uploads s)"
    using um by (simp add: updateMany_status_def)
  have "findUnique_upload ups uid
      = map_option (\<lambda>u. if u_id u = uid \<and> u_status u = UPLOADING
                            then u\<lparr>u_status := PROCESSING\<rparr> else u)
          (findUnique_upload (uploads s) uid)"
    unfolding ups_def by (rule findUnique_map) auto
  then obtain upload where fu: "findUnique_upload ups uid = Some upload"
    and same: "u_totalChunks upload = u_totalChunks up" "u_filename upload = u_filename up"
    using up by auto
  have fin: "update_upload ups uid (\<lambda>u. u\<lparr>u_status := COMPLETED, u_finalHash := Some ''dummy_hash''\<rparr>)
      = update_upload (uploads s) uid (\<lambda>u. u\<lparr>u_status := COMPLETED, u_finalHash := Some ''dummy_hash''\<rparr>)"
    using completed_after_processing [of "uploads s" uid "''dummy_hash''"] um by simp
  have "finalize_handler dirs yauzl s uid =
     (s\<lparr>uploads := ups, files := fls,
        uploads := update_upload ups uid
            (\<lambda>u. u\<lparr>u_status := COMPLETED, u_finalHash := Some ''dummy_hash''\<rparr>)\<rparr>,
      (200, CompletedJson names ''dummy_hash''))"
    unfolding finalize_handler_def um using n fu same cnt asm pk by (simp add: Let_def)
  then show ?thesis
    by (simp add: fin)
qed

text \<open>
  C2.  A finalize call that wins the transition (the session is found in \<open>UPLOADING\<close>, so
  the conditional update changes exactly one row) while the number of \<open>COMPLETED\<close> chunk
  records differs from \<open>totalChunks\<close>: the files are untouched (no assembly), the session
  ends in \<open>FAILED\<close>, and the 500 response carries the message "Missing chunks. Expected
  ..., got ...".  For every finalize call: if any \<open>finalHash\<close> of the table differs
  afterwards, then every step succeeded (the call won the transition, the count of
  \<open>COMPLETED\<close> chunk records equals \<open>totalChunks\<close>, the scratch file existed and was
  renamed, and the archive reader accepted the renamed file), the call answered 200
  "completed", and the session is \<open>COMPLETED\<close> with that hash.  Conversely, a call for
  which every step succeeds stores the hash, sets \<open>COMPLETED\<close> and answers 200 "completed".
\<close>

theorem finalize_missing_chunks:
  assumes "wf_db s"
    and "findUnique_upload (uploads s) uid = Some up"
    and "u_status up = UPLOADING"
    and "int (length (completed_chunks (chunks s) uid)) \<noteq> u_totalChunks up"
  shows "fst (updateMany_status (uploads s) uid UPLOADING PROCESSING) = 1
     \<and> finalize_handler dirs yauzl s uid =
         (s\<lparr>uploads := update_upload (uploads s) uid (\<lambda>u. u\<lparr>u_status := FAILED\<rparr>)\<rparr>,
          (500, ErrorJson (''Missing chunks. Expected '' @ show_int (u_totalChunks up)
             @ '', got '' @ show_nat (length (completed_chunks (chunks s) uid)))))
     \<and> findUnique_upload (uploads (fst (finalize_handler dirs yauzl s uid))) uid
         = Some (up\<lparr>u_status := FAILED\<rparr>)
     \<and> files (fst (finalize_handler dirs yauzl s uid)) = files s
     \<and> (\<forall>t i t' r. finalize_handler dirs yauzl t i = (t', r)
           \<and> map u_finalHash (uploads t') \<noteq> map u_finalHash (uploads t)
         \<longrightarrow> (\<exists>up' fls names. all_steps_succeed dirs yauzl t i up' fls names
               \<and> r = (200, CompletedJson names ''dummy_hash'')
               \<and> files t' = fls
               \<and> list_all (\<lambda>u. u_id u = i \<longrightarrow> u_status u = COMPLETED
                     \<and> u_finalHash u = Some ''dummy_hash'') (uploads t')))
     \<and> (\<forall>t i up' fls names. all_steps_succeed dirs yauzl t i up' fls names
         \<longrightarrow> finalize_handler dirs yauzl t i =
               (t\<lparr>uploads := update_upload (uploads t) i
                      (\<lambda>u. u\<lparr>u_status := COMPLETED, u_finalHash := Some ''dummy_hash''\<rparr>),
                  files := fls\<rparr>,
                (200, CompletedJson names ''dummy_hash'')))"
proof -
  have c: "fst (updateMany_status (uploads s) uid UPLOADING PROCESSING) = 1"
    using assms(1-3) by (intro updateMany_count_one) (auto simp: wf_db_def)
  note r = finalize_winner_mismatch [OF assms(2-4), where dirs = dirs and yauzl = yauzl]
  have "u_id up = uid"
    using assms(2) by (auto simp: findUnique_upload_def find_Some_iff)
  then have f: "findUnique_upload (uploads (fst (finalize_handler dirs yauzl s uid))) uid
      = Some (up\<lparr>u_status := FAILED\<rparr>)"
    unfolding r update_upload_def using assms(2)
    by (simp add: findUnique_map)
  have fs: "files (fst (finalize_handler dirs yauzl s uid)) = files s"
    unfolding r by simp
  have only: "\<exists>up' fls names. all_steps_succeed dirs yauzl t i up' fls names
               \<and> r = (200, CompletedJson names ''dummy_hash'')
               \<and> files t' = fls
               \<and> list_all (\<lambda>u. u_id u = i \<longrightarrow> u_status u = COMPLETED
                     \<and> u_finalHash u = Some ''dummy_hash'') (uploads t')"
    if "finalize_handler dirs yauzl t i = (t', r)
           \<and> map u_finalHash (uploads t') \<noteq> map u_finalHash (uploads t)" for t i t' r
    using that by (intro finalize_hash_cases) simp_all
  from c r f fs only finalize_success [where dirs = dirs and yauzl = yauzl] show ?thesis
    by (intro conjI allI impI) blast+
qed

theorem finalize_missing_chunks_witness:
  "wf_db (ex_db [ex_upload ''u1'' UPLOADING 0] [ex_chunk ''u1'' 0 COMPLETED])
   \<and> findUnique_upload (uploads (ex_db [ex_upload ''u1'' UPLOADING 0] [ex_chunk ''u1'' 0 COMPLETED])) ''u1''
       = Some (ex_upload ''u1'' UPLOADING 0)
   \<and> u_status (ex_upload ''u1'' UPLOADING 0) = UPLOADING
   \<and> int (length (completed_chunks
         (chunks (ex_db [ex_upload ''u1'' UPLOADING 0] [ex_chunk ''u1'' 0 COMPLETED])) ''u1''))
       \<noteq> u_totalChunks (ex_upload ''u1'' UPLOADING 0)
   \<and> finalize_handler {} ex_zip (ex_db [ex_upload ''u1'' UPLOADING 0] [ex_chunk ''u1'' 0 COMPLETED]) ''u1''
       = (ex_db [ex_upload ''u1'' FAILED 0] [ex_chunk ''u1'' 0 COMPLETED],
          (500, ErrorJson ''Missing chunks. Expected 3, got 1''))
   \<and> all_steps_succeed {} ex_zip ex_ready_db ''u1'' (ex_upload ''u1'' UPLOADING 0)
         [UPLOAD_DIR @ ''/u1_a.zip'' \<mapsto> []] [''readme.txt'']
   \<and> finalize_handler {} ex_zip ex_ready_db ''u1''
       = (ex_ready_db
            \<lparr>uploads := [(ex_upload ''u1'' COMPLETED 0)\<lparr>u_finalHash := Some ''dummy_hash''\<rparr>],
             files := [UPLOAD_DIR @ ''/u1_a.zip'' \<mapsto> []]\<rparr>,
          (200, CompletedJson [''readme.txt''] ''dummy_hash''))
   \<and> map u_finalHash (uploads (fst (finalize_handler {} ex_zip ex_ready_db ''u1'')))
       \<noteq> map u_finalHash (uploads ex_ready_db)
   \<and> finalize_handler {} no_zip ex_ready_db ''u1''
       = (ex_ready_db
            \<lparr>uploads := [ex_upload ''u1'' FAILED 0],
             files := [UPLOAD_DIR @ ''/u1_a.zip'' \<mapsto> []]\<rparr>,
          (500, ErrorJson ''end of central directory record signature not found''))"
proof -
  let ?s = "ex_db [ex_upload ''u1'' UPLOADING 0] [ex_chunk ''u1'' 0 COMPLETED]"
  have h1: "wf_db ?s"
    by (simp add: wf_db_def ex_db_def ex_upload_def ex_chunk_def)
  have h2: "findUnique_upload (uploads ?s) ''u1'' = Some (ex_upload ''u1'' UPLOADING 0)"
    by (simp add: findUnique_upload_def ex_db_def ex_upload_def)
  have h3: "u_status (ex_upload ''u1'' UPLOADING 0) = UPLOADING"
    by (simp add: ex_upload_def)
  have h4: "int (length (completed_chunks (chunks ?s) ''u1'')) \<noteq> u_totalChunks (ex_upload ''u1'' UPLOADING 0)"
    by (simp add: completed_chunks_def ex_db_def ex_upload_def ex_chunk_def)
  have sh: "show_int 3 = ''3''" "show_nat (Suc 0) = ''1''"
    by (simp_all add: show_int_def show_nat.simps)
  note inst = finalize_missing_chunks [OF h1 h2 h3 h4, where dirs = "{}" and yauzl = ex_zip]
  have c1: "finalize_handler {} ex_zip ?s ''u1''
       = (ex_db [ex_upload ''u1'' FAILED 0] [ex_chunk ''u1'' 0 COMPLETED],
          (500, ErrorJson ''Missing chunks. Expected 3, got 1''))"
    using inst
    by (simp add: sh update_upload_def completed_chunks_def ex_db_def ex_upload_def ex_chunk_def)
  have asm: "assembleFile {} [getFilePath ''u1'' \<mapsto> []] ''u1'' ''a.zip''
      = Inr ([UPLOAD_DIR @ ''/u1_a.zip'' \<mapsto> []], UPLOAD_DIR @ ''/u1_a.zip'')"
    by (subst assembleFile_plain [where c = "[]"]) simp_all
  have pk: "peekZip ex_zip [UPLOAD_DIR @ ''/u1_a.zip'' \<mapsto> []] (UPLOAD_DIR @ ''/u1_a.zip'')
      = Inr [''readme.txt'']"
    by (simp add: peekZip_def ex_zip_def)
  have a: "all_steps_succeed {} ex_zip ex_ready_db ''u1'' (ex_upload ''u1'' UPLOADING 0)
         [UPLOAD_DIR @ ''/u1_a.zip'' \<mapsto> []] [''readme.txt'']"
    unfolding all_steps_succeed_def
    using asm pk
    by (simp add: ex_ready_db_def updateMany_status_def findUnique_upload_def
        completed_chunks_def ex_upload_def ex_chunk_def ex_zip_def)
  from inst have "\<forall>t i up' fls names. all_steps_succeed {} ex_zip t i up' fls names
         \<longrightarrow> finalize_handler {} ex_zip t i =
               (t\<lparr>uploads := update_upload (uploads t) i
                      (\<lambda>u. u\<lparr>u_status := COMPLETED, u_finalHash := Some ''dummy_hash''\<rparr>),
                  files := fls\<rparr>,
                (200, CompletedJson names ''dummy_hash''))"
    by blast
  with a have "finalize_handler {} ex_zip ex_ready_db ''u1'' =
               (ex_ready_db\<lparr>uploads := update_upload (uploads ex_ready_db) ''u1''
                      (\<lambda>u. u\<lparr>u_status := COMPLETED, u_finalHash := Some ''dummy_hash''\<rparr>),
                  files := [UPLOAD_DIR @ ''/u1_a.zip'' \<mapsto> []]\<rparr>,
                (200, CompletedJson [''readme.txt''] ''dummy_hash''))"
    by blast
  then have c2: "finalize_handler {} ex_zip ex_ready_db ''u1''
       = (ex_ready_db
            \<lparr>uploads := [(ex_upload ''u1'' COMPLETED 0)\<lparr>u_finalHash := Some ''dummy_hash''\<rparr>],
             files := [UPLOAD_DIR @ ''/u1_a.zip'' \<mapsto> []]\<rparr>,
          (200, CompletedJson [''readme.txt''] ''dummy_hash''))"
    by (simp add: update_upload_def ex_ready_db_def ex_upload_def)
  then have c3: "map u_finalHash (uploads (fst (finalize_handler {} ex_zip ex_ready_db ''u1'')))
       \<noteq> map u_finalHash (uploads ex_ready_db)"
    by (simp add: ex_ready_db_def ex_upload_def)
  have c4: "finalize_handler {} no_zip ex_ready_db ''u1''
       = (ex_ready_db
            \<lparr>uploads := [ex_upload ''u1'' FAILED 0],
             files := [UPLOAD_DIR @ ''/u1_a.zip'' \<mapsto> []]\<rparr>,
          (500, ErrorJson ''end of central directory record signature not found''))"
    using asm
    by (simp add: finalize_handler_def updateMany_status_def findUnique_upload_def
        completed_chunks_def peekZip_def no_zip_def finalize_failed_def update_upload_def
        ex_ready_db_def ex_upload_def ex_chunk_def Let_def)
  from h1 h2 h3 h4 c1 a c2 c3 c4 show ?thesis by blast
qed

section \<open>Handshake: sequential calls reuse the session\<close>

lemma find_snoc_None:
  "find P xs = None \<Longrightarrow> P x \<Longrightarrow> find P (xs @ [x]) = Some x"
  by (induction xs) (auto split: if_splits)

lemma init_handler_valid:
  assumes "filename \<noteq> []" "totalSize \<noteq> 0" "totalChunks \<noteq> 0"
  shows "init_handler s \<lparr>req_filename = Some filename, req_totalSize = Some totalSize,
            req_totalChunks = Some totalChunks\<rparr> newId now =
     (case init_create s (init_lookup s filename totalSize)
             filename totalSize totalChunks newId now of
        Inl err \<Rightarrow> (s, (500, ErrorJson err))
      | Inr (s1, upload) \<Rightarrow> (s1, init_respond s1 upload))"
  using assms by (simp add: init_handler_def falsy_str_def falsy_num_def)

lemma init_handler_found:
  assumes "filename \<noteq> []" "totalSize \<noteq> 0" "totalChunks \<noteq> 0"
    and "findFirst_upload (uploads s) filename totalSize = Some u"
  shows "init_handler s \<lparr>req_filename = Some filename, req_totalSize = Some totalSize,
            req_totalChunks = Some totalChunks\<rparr> newId now = (s, init_respond s u)"
  using assms(4) by (simp add: init_handler_valid [OF assms(1-3)] init_lookup_def init_create_def)

lemma init_handler_created:
  assumes "filename \<noteq> []" "totalSize \<noteq> 0" "totalChunks \<noteq> 0"
    and "findFirst_upload (uploads s) filename totalSize = None"
    and "newId \<notin> set (map u_id (uploads s))"
  shows "init_handler s \<lparr>req_filename = Some filename, req_totalSize = Some totalSize,
            req_totalChunks = Some totalChunks\<rparr> newId now =
     (s\<lparr>uploads := uploads s @ [new_upload newId now filename totalSize totalChunks]\<rparr>,
      init_respond s (new_upload newId now filename totalSize totalChunks))"
  using assms(4,5)
  by (simp add: init_handler_valid [OF assms(1-3)] init_lookup_def init_create_def
      create_upload_def init_respond_def new_upload_def Let_def)

lemma findFirst_after_create:
  assumes "findFirst_upload ups filename totalSize = None"
  shows "findFirst_upload (ups @ [new_upload newId now filename totalSize totalChunks])
           filename totalSize = Some (new_upload newId now filename totalSize totalChunks)"
  using assms unfolding findFirst_upload_def
  by (intro find_snoc_None) (simp_all add: new_upload_def)

lemma completed_indices_set:
  "set (map c_chunkIndex (completed_chunks cs sid))
     = {i. \<exists>c \<in> set cs. c_uploadId c = sid \<and> c_chunkIndex c = i \<and> c_status c = COMPLETED}"
  by (auto simp: completed_chunks_def)

lemma chunk_handler_uploads:
  "uploads (fst (chunk_handler Number from_base64 s req)) = uploads s"
  by (simp add: chunk_handler_def Let_def split: option.splits)

text \<open>
  C4.  A valid handshake, answered on a store that assigns a fresh identifier, returns a
  session id \<open>sid\<close> and the indices of its completed chunks.  While no chunk of that
  session has completed, the answer is \<open>sid\<close> with the empty resume list, and a second
  handshake with the same filename and totalSize, run on the resulting state, returns the
  same \<open>sid\<close> and the empty list and changes nothing.  After any progress of the chunk
  table and the files, a handshake with the same filename and totalSize returns the same
  \<open>sid\<close> and a list whose elements are exactly the indices of the chunk records of
  \<open>sid\<close> with status \<open>COMPLETED\<close>.
\<close>

theorem handshake_idempotent:
  assumes "filename \<noteq> []" and "totalSize \<noteq> 0" and "totalChunks \<noteq> 0" and "totalChunks' \<noteq> 0"
    and "newId \<notin> set (map u_id (uploads s))"
    and "init_handler s \<lparr>req_filename = Some filename, req_totalSize = Some totalSize,
            req_totalChunks = Some totalChunks\<rparr> newId now = (s1, r1)"
  shows "\<exists>sid. r1 = (200, InitJson sid (map c_chunkIndex (completed_chunks (chunks s) sid)))
     \<and> (completed_chunks (chunks s) sid = [] \<longrightarrow>
           r1 = (200, InitJson sid [])
         \<and> init_handler s1 \<lparr>req_filename = Some filename, req_totalSize = Some totalSize,
              req_totalChunks = Some totalChunks'\<rparr> newId' now' = (s1, (200, InitJson sid [])))
     \<and> (\<forall>cs fls.
           init_handler (s1\<lparr>chunks := cs, files := fls\<rparr>)
             \<lparr>req_filename = Some filename, req_totalSize = Some totalSize,
              req_totalChunks = Some totalChunks'\<rparr> newId' now'
           = (s1\<lparr>chunks := cs, files := fls\<rparr>,
              (200, InitJson sid (map c_chunkIndex (completed_chunks cs sid))))
         \<and> set (map c_chunkIndex (completed_chunks cs sid))
           = {i. \<exists>c \<in> set cs. c_uploadId c = sid \<and> c_chunkIndex c = i \<and> c_status c = COMPLETED})"
proof -
  let ?req' = "\<lparr>req_filename = Some filename, req_totalSize = Some totalSize,
              req_totalChunks = Some totalChunks'\<rparr>"
  obtain u where u: "findFirst_upload (uploads s1) filename totalSize = Some u"
    and r1: "r1 = init_respond s u" and cs1: "chunks s1 = chunks s"
  proof (cases "findFirst_upload (uploads s) filename totalSize")
    case None
    let ?row = "new_upload newId now filename totalSize totalChunks"
    from init_handler_created [OF assms(1-3) None assms(5), of now] assms(6)
    have "s1 = s\<lparr>uploads := uploads s @ [?row]\<rparr>" "r1 = init_respond s ?row"
      by simp_all
    with findFirst_after_create [OF None, of newId now totalChunks] that show ?thesis
      by simp
  next
    case (Some u)
    from init_handler_found [OF assms(1-3) Some, of newId now] assms(6)
    have "s1 = s" "r1 = init_respond s u" by simp_all
    with Some that show ?thesis by simp
  qed
  have again: "init_handler t ?req' newId' now' = (t, init_respond t u)"
    if "uploads t = uploads s1" for t
    using init_handler_found [OF assms(1,2,4), of t u newId' now'] u that by simp
  have a: "r1 = (200, InitJson (u_id u) (map c_chunkIndex (completed_chunks (chunks s) (u_id u))))"
    using r1 by (simp add: init_respond_def)
  have b: "init_handler s1 ?req' newId' now' = (s1, (200, InitJson (u_id u) []))"
    if "completed_chunks (chunks s) (u_id u) = []"
    using again [of s1] that cs1 by (simp add: init_respond_def)
  have c: "init_handler (s1\<lparr>chunks := cs, files := fls\<rparr>) ?req' newId' now'
           = (s1\<lparr>chunks := cs, files := fls\<rparr>,
              (200, InitJson (u_id u) (map c_chunkIndex (completed_chunks cs (u_id u)))))" for cs fls
    using again [of "s1\<lparr>chunks := cs, files := fls\<rparr>"] by (simp add: init_respond_def)
  from a b c completed_indices_set show ?thesis
    by (intro exI [of _ "u_id u"]) simp
qed

theorem handshake_idempotent_witness:
  "''a.zip'' \<noteq> [] \<and> (12582912 :: int) \<noteq> 0 \<and> (3 :: int) \<noteq> 0
   \<and> ''u1'' \<notin> set (map u_id (uploads (ex_db [] [])))
   \<and> init_handler (ex_db [] []) ex_init_req ''u1'' 0
       = (ex_db [ex_upload ''u1'' UPLOADING 0] [], (200, InitJson ''u1'' []))
   \<and> init_handler (ex_db [ex_upload ''u1'' UPLOADING 0] []) ex_init_req ''u2'' 5
       = (ex_db [ex_upload ''u1'' UPLOADING 0] [], (200, InitJson ''u1'' []))
   \<and> init_handler
         (ex_db [ex_upload ''u1'' UPLOADING 0]
            [ex_chunk ''u1'' 0 COMPLETED, ex_chunk ''u1'' 2 COMPLETED, ex_chunk ''u1'' 1 UPLOADING])
         ex_init_req ''u3'' 9
       = (ex_db [ex_upload ''u1'' UPLOADING 0]
            [ex_chunk ''u1'' 0 COMPLETED, ex_chunk ''u1'' 2 COMPLETED, ex_chunk ''u1'' 1 UPLOADING],
          (200, InitJson ''u1'' [0, 2]))"
proof -
  let ?s = "ex_db [] []"
  let ?s1 = "ex_db [ex_upload ''u1'' UPLOADING 0] []"
  let ?cs = "[ex_chunk ''u1'' 0 COMPLETED, ex_chunk ''u1'' 2 COMPLETED, ex_chunk ''u1'' 1 UPLOADING]"
  have h1: "''a.zip'' \<noteq> []" and h2: "(12582912 :: int) \<noteq> 0" and h3: "(3 :: int) \<noteq> 0"
    by simp_all
  have h5: "''u1'' \<notin> set (map u_id (uploads ?s))"
    by (simp add: ex_db_def)
  have h6: "init_handler ?s \<lparr>req_filename = Some ''a.zip'', req_totalSize = Some 12582912,
            req_totalChunks = Some 3\<rparr> ''u1'' 0 = (?s1, (200, InitJson ''u1'' []))"
    by (simp add: init_handler_def falsy_str_def falsy_num_def init_lookup_def init_create_def
        findFirst_upload_def create_upload_def new_upload_def init_respond_def
        completed_chunks_def ex_db_def ex_upload_def Let_def)
  have e: "completed_chunks (chunks ?s) ''u1'' = []"
    by (simp add: completed_chunks_def ex_db_def)
  from handshake_idempotent [OF h1 h2 h3 h3 h5 h6, of "''u2''" 5]
  obtain sid where
    a: "(200, InitJson ''u1'' []) = (200, InitJson sid (map c_chunkIndex (completed_chunks (chunks ?s) sid)))"
    and b: "completed_chunks (chunks ?s) sid = [] \<longrightarrow>
         (200, InitJson ''u1'' []) = (200, InitJson sid [])
         \<and> init_handler ?s1 \<lparr>req_filename = Some ''a.zip'', req_totalSize = Some 12582912,
              req_totalChunks = Some 3\<rparr> ''u2'' 5 = (?s1, (200, InitJson sid []))"
    by blast
  from a have sid: "sid = ''u1''" by simp
  from b e have c1: "init_handler ?s1 ex_init_req ''u2'' 5 = (?s1, (200, InitJson ''u1'' []))"
    unfolding sid ex_init_req_def by simp
  from handshake_idempotent [OF h1 h2 h3 h3 h5 h6, of "''u3''" 9]
  obtain sid' where
    a': "(200, InitJson ''u1'' []) = (200, InitJson sid' (map c_chunkIndex (completed_chunks (chunks ?s) sid')))"
    and c: "\<forall>cs fls. init_handler (?s1\<lparr>chunks := cs, files := fls\<rparr>)
             \<lparr>req_filename = Some ''a.zip'', req_totalSize = Some 12582912,
              req_totalChunks = Some 3\<rparr> ''u3'' 9
           = (?s1\<lparr>chunks := cs, files := fls\<rparr>,
              (200, InitJson sid' (map c_chunkIndex (completed_chunks cs sid'))))
         \<and> set (map c_chunkIndex (completed_chunks cs sid'))
           = {i. \<exists>c \<in> set cs. c_uploadId c = sid' \<and> c_chunkIndex c = i \<and> c_status c = COMPLETED}"
    by blast
  from a' have sid': "sid' = ''u1''" by simp
  have s2: "?s1\<lparr>chunks := ?cs, files := Map.empty\<rparr> = ex_db [ex_upload ''u1'' UPLOADING 0] ?cs"
    by (simp add: ex_db_def)
  have idx: "map c_chunkIndex (completed_chunks ?cs ''u1'') = [0, 2]"
    by (simp add: completed_chunks_def ex_chunk_def)
  from c [rule_format, where cs = ?cs and fls = Map.empty]
  have c2: "init_handler (ex_db [ex_upload ''u1'' UPLOADING 0] ?cs) ex_init_req ''u3'' 9
       = (ex_db [ex_upload ''u1'' UPLOADING 0] ?cs, (200, InitJson ''u1'' [0, 2]))"
    unfolding sid' s2 idx ex_init_req_def by simp
  from h1 h2 h3 h5 h6 c1 c2 show ?thesis
    unfolding ex_init_req_def by blast
qed

section \<open>Handshake: two requests in flight\<close>

text \<open>
  C9.  The creation path is a lookup followed by an insert, not one atomic operation.  Two
  handshakes for the same file on an empty store, both of whose lookups run before either
  insert, create two sessions in \<open>UPLOADING\<close> with the same filename and totalSize.
\<close>

theorem init_race:
  "init_interleaved (ex_db [] []) ''a.zip'' 12582912 3 ''u1'' ''u2'' 0
     = Inr (ex_db [ex_upload ''u1'' UPLOADING 0, ex_upload ''u2'' UPLOADING 0] [],
            (200, InitJson ''u1'' []), (200, InitJson ''u2'' []))
   \<and> length (filter (\<lambda>u. u_filename u = ''a.zip'' \<and> u_totalSize u = 12582912
                          \<and> u_status u = UPLOADING)
        [ex_upload ''u1'' UPLOADING 0, ex_upload ''u2'' UPLOADING 0]) = 2"
  by (simp add: init_interleaved_def init_lookup_def init_create_def findFirst_upload_def
      create_upload_def new_upload_def init_respond_def completed_chunks_def
      ex_db_def ex_upload_def Let_def)

section \<open>Chunk acceptance without a payload\<close>

lemma chunk_handler_no_data:
  assumes "uId \<noteq> []" "chunkIndex \<noteq> []"
  shows "chunk_handler Number from_base64 s
           \<lparr>q_uploadId = Some uId, q_chunkIndex = Some chunkIndex, body_data = None\<rparr>
         = (s\<lparr>chunks := upsert_chunk (chunks s) uId (Number chunkIndex) UPLOADING\<rparr>,
            (400, SendText ''No data''))"
  using assms by (simp add: chunk_handler_def falsy_str_def Let_def)

text \<open>
  C6.  A chunk request with its addressing metadata but no payload is answered with 400
  "No data" after the chunk record has been upserted: a record that was \<open>COMPLETED\<close> is
  back in \<open>UPLOADING\<close>, and on a store without the record one is created.
\<close>

theorem chunk_no_data_mutates:
  "chunk_handler (\<lambda>x. 0) (\<lambda>x. [])
     (ex_db [ex_upload ''u1'' UPLOADING 0] [ex_chunk ''u1'' 0 COMPLETED])
     \<lparr>q_uploadId = Some ''u1'', q_chunkIndex = Some ''0'', body_data = None\<rparr>
   = (ex_db [ex_upload ''u1'' UPLOADING 0] [ex_chunk ''u1'' 0 UPLOADING],
      (400, SendText ''No data''))
   \<and> chunk_handler (\<lambda>x. 0) (\<lambda>x. []) (ex_db [] [])
     \<lparr>q_uploadId = Some ''u1'', q_chunkIndex = Some ''0'', body_data = None\<rparr>
   = (ex_db [] [ex_chunk ''u1'' 0 UPLOADING], (400, SendText ''No data''))"
  by (simp add: chunk_handler_def falsy_str_def upsert_chunk_def chunk_key_def
      ex_db_def ex_chunk_def Let_def)


section \<open>Cleanup: only stale sessions in UPLOADING are reclaimed\<close>

lemma cleanup_one_uploads:
  "uploads (cleanup_one up s) = filter (\<lambda>u. u_id u \<noteq> u_id up) (uploads s)"
  and cleanup_one_chunks:
  "chunks (cleanup_one up s) = filter (\<lambda>c. c_uploadId c \<noteq> u_id up) (chunks s)"
  and cleanup_one_files:
  "files (cleanup_one up s) = (files s)(getFilePath (u_id up) := None)"
  by (auto simp: cleanup_one_def Let_def)

lemma fold_cleanup_uploads:
  "uploads (fold cleanup_one os s) = filter (\<lambda>u. u_id u \<notin> u_id ` set os) (uploads s)"
  by (induction os arbitrary: s) (auto simp: cleanup_one_uploads intro: filter_cong)

lemma fold_cleanup_chunks:
  "chunks (fold cleanup_one os s) = filter (\<lambda>c. c_uploadId c \<notin> u_id ` set os) (chunks s)"
  by (induction os arbitrary: s) (auto simp: cleanup_one_chunks intro: filter_cong)










section \<open>Chunk writes: idempotence and independence of order\<close>

lemma length_write_at:
  "length (write_at f pos buf) = (if buf = [] then length f else max (length f) (pos + length buf))"
  by (auto simp: write_at_def)

lemma nth_write_at:
  assumes "k < length (write_at f pos buf)"
  shows "write_at f pos buf ! k =
     (if pos \<le> k \<and> k < pos + length buf then buf ! (k - pos)
      else if k < length f then f ! k else 0)"
proof (cases "buf = []")
  case True
  with assms show ?thesis by (auto simp: write_at_def)
next
  case False
  show ?thesis
  proof (cases "k < pos")
    case True
    then show ?thesis
      using False by (auto simp: write_at_def nth_append)
  next
    case ge: False
    show ?thesis
    proof (cases "k < pos + length buf")
      case True
      with ge False show ?thesis
        by (auto simp: write_at_def nth_append min_def)
    next
      case False
      with ge assms \<open>buf \<noteq> []\<close> have "k < length f"
        by (simp add: length_write_at)
      with ge False \<open>buf \<noteq> []\<close> show ?thesis
        by (auto simp: write_at_def nth_append min_def)
    qed
  qed
qed

lemma write_at_idem: "write_at (write_at f pos buf) pos buf = write_at f pos buf"
proof (rule nth_equalityI)
  show l: "length (write_at (write_at f pos buf) pos buf) = length (write_at f pos buf)"
    by (simp add: length_write_at)
  fix k assume "k < length (write_at (write_at f pos buf) pos buf)"
  with l have k: "k < length (write_at f pos buf)" by simp
  with l show "write_at (write_at f pos buf) pos buf ! k = write_at f pos buf ! k"
    by (simp add: nth_write_at)
qed

lemma write_at_commute:
  assumes "p1 + length b1 \<le> p2 \<or> p2 + length b2 \<le> p1"
  shows "write_at (write_at f p1 b1) p2 b2 = write_at (write_at f p2 b2) p1 b1"
proof (rule nth_equalityI)
  show l: "length (write_at (write_at f p1 b1) p2 b2) = length (write_at (write_at f p2 b2) p1 b1)"
    by (auto simp: length_write_at)
  fix k assume k: "k < length (write_at (write_at f p1 b1) p2 b2)"
  with l have k': "k < length (write_at (write_at f p2 b2) p1 b1)" by simp
  have "write_at (write_at f p1 b1) p2 b2 ! k =
     (if p2 \<le> k \<and> k < p2 + length b2 then b2 ! (k - p2)
      else if p1 \<le> k \<and> k < p1 + length b1 then b1 ! (k - p1)
      else if k < length f then f ! k else 0)"
    using k by (auto simp: nth_write_at length_write_at split: if_splits)
  moreover have "write_at (write_at f p2 b2) p1 b1 ! k =
     (if p1 \<le> k \<and> k < p1 + length b1 then b1 ! (k - p1)
      else if p2 \<le> k \<and> k < p2 + length b2 then b2 ! (k - p2)
      else if k < length f then f ! k else 0)"
    using k' by (auto simp: nth_write_at length_write_at split: if_splits)
  ultimately show "write_at (write_at f p1 b1) p2 b2 ! k = write_at (write_at f p2 b2) p1 b1 ! k"
    using assms by auto
qed


lemma writeChunk_files:
  "fst (writeChunk fls uid i buf off)
     = fls(getFilePath uid \<mapsto>
         write_at (case fls (getFilePath uid) of None \<Rightarrow> [] | Some c \<Rightarrow> c) off buf)"
  by (auto simp: writeChunk_def Let_def split: option.splits)

lemma writeChunk_idem:
  "fst (writeChunk (fst (writeChunk fls uid i buf off)) uid i buf off)
     = fst (writeChunk fls uid i buf off)"
  by (simp add: writeChunk_files write_at_idem)

lemma writeChunk_commute:
  assumes "p1 + length b1 \<le> p2 \<or> p2 + length b2 \<le> p1"
  shows "fst (writeChunk (fst (writeChunk fls uid i1 b1 p1)) uid i2 b2 p2)
     = fst (writeChunk (fst (writeChunk fls uid i2 b2 p2)) uid i1 b1 p1)"
  by (simp add: writeChunk_files write_at_commute [OF assms])

lemma chunk_ranges_disjoint:
  assumes "i \<noteq> j" "length bi \<le> c" "length bj \<le> c"
  shows "i * c + length bi \<le> j * c \<or> j * c + length bj \<le> (i :: nat) * c"
proof (cases "i < j")
  case True
  then have "Suc i \<le> j" by simp
  then have "Suc i * c \<le> j * c" by (rule mult_le_mono1)
  with assms(2) show ?thesis by simp
next
  case False
  with assms(1) have "Suc j \<le> i" by simp
  then have "Suc j * c \<le> i * c" by (rule mult_le_mono1)
  with assms(3) show ?thesis by simp
qed

text \<open>
  C5.  Writing chunk \<open>i\<close> twice with the same bytes gives the same files as writing it
  once.  For chunk writes of one session with distinct indices whose payloads are each at
  most \<open>CHUNK_SIZE\<close> bytes long, every permutation of the writes gives the same files as
  the writes in index order.
\<close>

theorem chunk_writes_commute:
  assumes "distinct (map fst ws)"
    and "\<forall>w \<in> set ws. length (snd w) \<le> CHUNK_SIZE_server"
    and "mset ws' = mset ws"
  shows "fst (writeChunk (fst (writeChunk fls uid i buf (i * CHUNK_SIZE_server)))
               uid i buf (i * CHUNK_SIZE_server))
           = fst (writeChunk fls uid i buf (i * CHUNK_SIZE_server))
     \<and> write_chunks fls uid ws' = write_chunks fls uid (sort_key fst ws)"
proof -
  let ?w = "\<lambda>(index, buffer) fl.
             fst (writeChunk fl uid index buffer (index * CHUNK_SIZE_server))"
  have comm: "?w x \<circ> ?w y = ?w y \<circ> ?w x" if "x \<in> set ws" "y \<in> set ws" for x y
  proof (cases "x = y")
    case True
    then show ?thesis by simp
  next
    case False
    obtain i bi where x: "x = (i, bi)" by (cases x)
    obtain j bj where y: "y = (j, bj)" by (cases y)
    from assms(1) that False have "i \<noteq> j"
      unfolding x y by (metis distinct_map fst_conv inj_onD)
    moreover from assms(2) that have "length bi \<le> CHUNK_SIZE_server" "length bj \<le> CHUNK_SIZE_server"
      unfolding x y by auto
    ultimately have "i * CHUNK_SIZE_server + length bi \<le> j * CHUNK_SIZE_server
        \<or> j * CHUNK_SIZE_server + length bj \<le> i * CHUNK_SIZE_server"
      by (rule chunk_ranges_disjoint)
    then have "fst (writeChunk (fst (writeChunk fl uid j bj (j * CHUNK_SIZE_server)))
                 uid i bi (i * CHUNK_SIZE_server))
        = fst (writeChunk (fst (writeChunk fl uid i bi (i * CHUNK_SIZE_server)))
                 uid j bj (j * CHUNK_SIZE_server))" for fl
      by (intro writeChunk_commute) blast
    then show ?thesis
      unfolding x y by (simp add: fun_eq_iff)
  qed
  have "mset (sort_key fst ws) = mset ws'"
    using assms(3) by simp
  moreover have "set (sort_key fst ws) = set ws" by simp
  ultimately have "fold ?w (sort_key fst ws) = fold ?w ws'"
    using comm by (intro fold_multiset_equiv) auto
  then show ?thesis
    by (simp add: write_chunks_def writeChunk_idem)
qed

theorem chunk_writes_commute_witness:
  "distinct (map fst [(1::nat, [2::byte]), (0, [1])])
   \<and> length [2::byte] \<le> CHUNK_SIZE_server \<and> length [1::byte] \<le> CHUNK_SIZE_server
   \<and> mset [(0::nat, [1::byte]), (1, [2])] = mset [(1, [2]), (0, [1])]
   \<and> write_chunks Map.empty ''u1'' [(0, [1]), (1, [2])]
       = write_chunks Map.empty ''u1'' (sort_key fst [(1, [2]), (0, [1])])"
proof -
  have h1: "distinct (map fst [(1::nat, [2::byte]), (0, [1])])" by simp
  have l: "length [2::byte] \<le> CHUNK_SIZE_server" "length [1::byte] \<le> CHUNK_SIZE_server"
    by (simp_all add: CHUNK_SIZE_server_def)
  then have h2: "\<forall>w \<in> set [(1::nat, [2::byte]), (0, [1])]. length (snd w) \<le> CHUNK_SIZE_server"
    by simp
  have h3: "mset [(0::nat, [1::byte]), (1, [2])] = mset [(1, [2]), (0, [1])]" by simp
  from chunk_writes_commute [OF h1 h2 h3] h1 l h3 show ?thesis by blast
qed

text \<open>
  Without the bound on the payload length the second part fails: chunk 0 with a payload of
  \<open>CHUNK_SIZE + 1\<close> bytes reaches into the range of chunk 1, and the byte at offset
  \<open>CHUNK_SIZE\<close> is that of whichever write came last.
\<close>

lemma sort_key_two: "sort_key fst [(0::nat, a), (1, b)] = [(0, a), (1, b)]"
  by simp

theorem chunk_writes_order_counterexample:
  "distinct (map fst [(0::nat, replicate 5242881 (1::byte)), (1, [2])])
   \<and> mset [(1, [2]), (0::nat, replicate 5242881 (1::byte))]
       = mset [(0, replicate 5242881 1), (1, [2])]
   \<and> write_chunks Map.empty ''u1'' [(1, [2]), (0, replicate 5242881 1)]
       \<noteq> write_chunks Map.empty ''u1'' (sort_key fst [(0, replicate 5242881 1), (1, [2])])"
proof -
  let ?A = "replicate 5242881 (1::byte)"
  let ?p = "getFilePath ''u1''"
  let ?l = "write_at (write_at [] 5242880 [2]) 0 ?A"
  let ?r = "write_at (write_at [] 0 ?A) 5242880 [2]"
  have l: "write_chunks Map.empty ''u1'' [(1, [2]), (0, ?A)] ?p = Some ?l"
    by (simp add: write_chunks_def writeChunk_files CHUNK_SIZE_server_def)
  have r: "write_chunks Map.empty ''u1'' (sort_key fst [(0, ?A), (1, [2])]) ?p = Some ?r"
    unfolding sort_key_two by (simp add: write_chunks_def writeChunk_files CHUNK_SIZE_server_def)
  have "?l ! 5242880 = 1"
    by (simp add: nth_write_at length_write_at)
  moreover have "?r ! 5242880 = 2"
    by (simp add: nth_write_at length_write_at)
  moreover have "(1::byte) \<noteq> 2"
    by simp
  ultimately have "?l \<noteq> ?r"
    by metis
  with l r have "write_chunks Map.empty ''u1'' [(1, [2]), (0, ?A)]
       \<noteq> write_chunks Map.empty ''u1'' (sort_key fst [(0, ?A), (1, [2])])"
    by (metis option.inject)
  then show ?thesis by simp
qed

section \<open>Chunk layout\<close>

lemma CHUNK_SIZE_pos: "0 < CHUNK_SIZE"
  by (simp add: CHUNK_SIZE_def)

lemma lt_totalChunks: "i < totalChunks_of n \<longleftrightarrow> i * CHUNK_SIZE < n"
proof -
  have "i < totalChunks_of n \<longleftrightarrow> int i < \<lceil>real n / real CHUNK_SIZE\<rceil>"
    unfolding totalChunks_of_def by linarith
  also have "\<dots> \<longleftrightarrow> real i < real n / real CHUNK_SIZE"
    by (simp add: less_ceiling_iff)
  also have "\<dots> \<longleftrightarrow> real i * real CHUNK_SIZE < real n"
    using CHUNK_SIZE_pos by (simp add: pos_less_divide_eq)
  also have "\<dots> \<longleftrightarrow> i * CHUNK_SIZE < n"
    by (metis of_nat_less_iff of_nat_mult)
  finally show ?thesis .
qed

lemma totalChunks_of_div: "totalChunks_of n = (n + CHUNK_SIZE - 1) div CHUNK_SIZE"
proof -
  have "i < (n + CHUNK_SIZE - 1) div CHUNK_SIZE \<longleftrightarrow> i * CHUNK_SIZE < n" for i
  proof -
    have "i < (n + CHUNK_SIZE - 1) div CHUNK_SIZE \<longleftrightarrow> Suc i \<le> (n + CHUNK_SIZE - 1) div CHUNK_SIZE"
      by auto
    also have "\<dots> \<longleftrightarrow> Suc i * CHUNK_SIZE \<le> n + CHUNK_SIZE - 1"
      using CHUNK_SIZE_pos by (simp only: less_eq_div_iff_mult_less_eq)
    also have "\<dots> \<longleftrightarrow> i * CHUNK_SIZE < n"
      using CHUNK_SIZE_pos by auto
    finally show ?thesis .
  qed
  then have "i < (n + CHUNK_SIZE - 1) div CHUNK_SIZE \<longleftrightarrow> i < totalChunks_of n" for i
    by (simp add: lt_totalChunks)
  then show ?thesis
    by (metis linorder_neqE_nat less_irrefl)
qed

lemma getChunk_length: "length (getChunk f i) = min ((i + 1) * CHUNK_SIZE) (length f) - i * CHUNK_SIZE"
  by (auto simp: getChunk_def slice_def Let_def min_def)

lemma getChunk_nth:
  assumes "k < length (getChunk f i)"
  shows "getChunk f i ! k = f ! (i * CHUNK_SIZE + k)"
  using assms by (auto simp: getChunk_def slice_def Let_def min_def split: if_splits)

lemma chunk_handler_writes:
  assumes "uId \<noteq> []" "chunkIndex \<noteq> []" "data \<noteq> []"
  shows "files (fst (chunk_handler Number from_base64 s
           \<lparr>q_uploadId = Some uId, q_chunkIndex = Some chunkIndex, body_data = Some data\<rparr>))
         = (files s)(getFilePath uId \<mapsto>
             write_at (case files s (getFilePath uId) of None \<Rightarrow> [] | Some c \<Rightarrow> c)
               (Number chunkIndex * CHUNK_SIZE_server) (from_base64 data))"
  using assms by (simp add: chunk_handler_def falsy_str_def Let_def writeChunk_files)

text \<open>
  C8.  The chunk size is 5 MiB on both sides.  The client creates, and declares in its
  handshake, \<open>ceil(size / CHUNK_SIZE)\<close> chunks.  For every chunk index \<open>i\<close> below that number, the
  slice the client sends is the byte range from \<open>i * CHUNK_SIZE\<close> to
  \<open>min ((i + 1) * CHUNK_SIZE, size)\<close> of the file: it is not empty, has \<open>CHUNK_SIZE\<close> bytes
  unless \<open>i\<close> is the last index, for which it has the remaining \<open>size - i * CHUNK_SIZE\<close>
  bytes, and \<open>getChunkSize\<close> gives its length; the ranges of two different indices do not
  overlap.  The server writes the payload of a chunk request at offset
  \<open>chunkIndex * CHUNK_SIZE\<close> of the session's scratch file.
\<close>

theorem chunk_layout:
  assumes "i < totalChunks_of (length f)"
  shows "int (totalChunks_of (length f)) = \<lceil>real (length f) / real CHUNK_SIZE\<rceil>
    \<and> totalChunks_of (length f) = (length f + CHUNK_SIZE - 1) div CHUNK_SIZE
    \<and> length (chunks_u (new_Uploader f)) = totalChunks_of (length f)
    \<and> CHUNK_SIZE = 5 * 1024 * 1024 \<and> CHUNK_SIZE_server = CHUNK_SIZE
    \<and> length (getChunk f i) = min ((i + 1) * CHUNK_SIZE) (length f) - i * CHUNK_SIZE
    \<and> (\<forall>k < length (getChunk f i). getChunk f i ! k = f ! (i * CHUNK_SIZE + k))
    \<and> length (getChunk f i)
        = (if i + 1 < totalChunks_of (length f) then CHUNK_SIZE else length f - i * CHUNK_SIZE)
    \<and> 0 < length (getChunk f i)
    \<and> getChunkSize f i = int (length (getChunk f i))
    \<and> (\<forall>j. j < totalChunks_of (length f) \<and> j \<noteq> i \<longrightarrow>
          i * CHUNK_SIZE + length (getChunk f i) \<le> j * CHUNK_SIZE
        \<or> j * CHUNK_SIZE + length (getChunk f j) \<le> i * CHUNK_SIZE)
    \<and> (\<forall>Number from_base64 s uId chunkIndex data.
          uId \<noteq> [] \<and> chunkIndex \<noteq> [] \<and> data \<noteq> [] \<longrightarrow>
          files (fst (chunk_handler Number from_base64 s
            \<lparr>q_uploadId = Some uId, q_chunkIndex = Some chunkIndex, body_data = Some data\<rparr>))
          = (files s)(getFilePath uId \<mapsto>
              write_at (case files s (getFilePath uId) of None \<Rightarrow> [] | Some c \<Rightarrow> c)
                (Number chunkIndex * CHUNK_SIZE) (from_base64 data)))"
proof -
  have t: "int (totalChunks_of (length f)) = \<lceil>real (length f) / real CHUNK_SIZE\<rceil>"
    unfolding totalChunks_of_def by (simp add: CHUNK_SIZE_def)
  have c: "CHUNK_SIZE = 5 * 1024 * 1024" "CHUNK_SIZE_server = CHUNK_SIZE"
    by (simp_all add: CHUNK_SIZE_def CHUNK_SIZE_server_def)
  from assms have lo: "i * CHUNK_SIZE < length f"
    by (simp add: lt_totalChunks)
  have len: "length (getChunk f i)
        = (if i + 1 < totalChunks_of (length f) then CHUNK_SIZE else length f - i * CHUNK_SIZE)"
    unfolding getChunk_length lt_totalChunks by (auto simp: min_def)
  have pos: "0 < length (getChunk f i)"
    unfolding getChunk_length using lo CHUNK_SIZE_pos by (auto simp: min_def)
  have sz: "getChunkSize f i = int (length (getChunk f i))"
    unfolding getChunk_length using lo by (auto simp: getChunkSize_def Let_def min_def)
  have le: "length (getChunk f j) \<le> CHUNK_SIZE" for j
    unfolding getChunk_length by (auto simp: min_def)
  have dj: "i * CHUNK_SIZE + length (getChunk f i) \<le> j * CHUNK_SIZE
        \<or> j * CHUNK_SIZE + length (getChunk f j) \<le> i * CHUNK_SIZE" if "j \<noteq> i" for j
    using that le [of i] le [of j] by (intro chunk_ranges_disjoint) auto
  have n: "length (chunks_u (new_Uploader f)) = totalChunks_of (length f)"
    by (simp add: new_Uploader_def)
  from t totalChunks_of_div [of "length f"] n c getChunk_length [of f i] getChunk_nth [of _ f i]
    len pos sz dj chunk_handler_writes [unfolded c(2)]
  show ?thesis by (intro conjI) blast+
qed

theorem chunk_layout_witness:
  "2 < totalChunks_of (length (replicate 12582912 (0::byte)))
   \<and> totalChunks_of (length (replicate 12582912 (0::byte))) = 3
   \<and> length (getChunk (replicate 12582912 0) 0) = 5242880
   \<and> length (getChunk (replicate 12582912 0) 1) = 5242880
   \<and> length (getChunk (replicate 12582912 0) 2) = 2097152
   \<and> getChunkSize (replicate 12582912 0) 2 = 2097152
   \<and> ''u1'' \<noteq> [] \<and> ''2'' \<noteq> [] \<and> ''Bw=='' \<noteq> []
   \<and> files (fst (chunk_handler (\<lambda>x. 2) (\<lambda>x. [7]) (ex_db [] [])
        \<lparr>q_uploadId = Some ''u1'', q_chunkIndex = Some ''2'', body_data = Some ''Bw==''\<rparr>))
       (getFilePath ''u1'') = Some (write_at [] 10485760 [7])"
proof -
  let ?f = "replicate 12582912 (0::byte)"
  have n: "totalChunks_of (length ?f) = 3"
    by (simp add: totalChunks_of_div CHUNK_SIZE_def)
  then have h: "0 < totalChunks_of (length ?f)" "1 < totalChunks_of (length ?f)"
    "2 < totalChunks_of (length ?f)"
    by simp_all
  have l0: "length (getChunk ?f 0) = 5242880"
    using chunk_layout [OF h(1)] n by (simp add: CHUNK_SIZE_def)
  have l1: "length (getChunk ?f 1) = 5242880"
    using chunk_layout [OF h(2)] n by (simp add: CHUNK_SIZE_def)
  have l2: "length (getChunk ?f 2) = 2097152" "getChunkSize ?f 2 = 2097152"
    using chunk_layout [OF h(3)] n by (simp_all add: CHUNK_SIZE_def)
  from chunk_layout [OF h(3)]
  have "\<forall>Number from_base64 s uId chunkIndex data.
          uId \<noteq> [] \<and> chunkIndex \<noteq> [] \<and> data \<noteq> [] \<longrightarrow>
          files (fst (chunk_handler Number from_base64 s
            \<lparr>q_uploadId = Some uId, q_chunkIndex = Some chunkIndex, body_data = Some data\<rparr>))
          = (files s)(getFilePath uId \<mapsto>
              write_at (case files s (getFilePath uId) of None \<Rightarrow> [] | Some c \<Rightarrow> c)
                (Number chunkIndex * CHUNK_SIZE) (from_base64 data))"
    by blast
  then have "files (fst (chunk_handler (\<lambda>x. 2) (\<lambda>x. [7]) (ex_db [] [])
        \<lparr>q_uploadId = Some ''u1'', q_chunkIndex = Some ''2'', body_data = Some ''Bw==''\<rparr>))
       = (files (ex_db [] []))(getFilePath ''u1'' \<mapsto>
              write_at (case files (ex_db [] []) (getFilePath ''u1'') of None \<Rightarrow> [] | Some c \<Rightarrow> c)
                (2 * CHUNK_SIZE) [7])"
    by simp
  then have w: "files (fst (chunk_handler (\<lambda>x. 2) (\<lambda>x. [7]) (ex_db [] [])
        \<lparr>q_uploadId = Some ''u1'', q_chunkIndex = Some ''2'', body_data = Some ''Bw==''\<rparr>))
       (getFilePath ''u1'') = Some (write_at [] 10485760 [7])"
    by (simp add: CHUNK_SIZE_def ex_db_def)
  from n h(3) l0 l1 l2 w show ?thesis by simp
qed


section \<open>Client: a transfer that is aborted\<close>

lemma axiosRetry_exhausted:
  "axiosRetry fn retries k = (False, n) \<longleftrightarrow> (\<forall>j \<le> retries. \<not> fn (k + j)) \<and> n = Suc (k + retries)"
proof (induction retries arbitrary: k)
  case 0
  then show ?case by auto
next
  case (Suc retries)
  have "(\<forall>j \<le> Suc retries. \<not> fn (k + j)) \<longleftrightarrow> \<not> fn k \<and> (\<forall>j \<le> retries. \<not> fn (Suc k + j))"
    by (metis (no_types, lifting) Suc_le_mono add_Suc_right add_Suc_shift add.right_neutral le0 not0_implies_Suc)
  with Suc show ?case by auto
qed

lemma uploadChunk_end_exhausted:
  assumes "\<forall>j \<le> 10. \<not> net_chunk net index j"
  shows "uploadChunk_end net u index =
     updateStatus ((set_chunk (u\<lparr>sent := sent u @ replicate 11 (POST_chunk index)\<rparr>) index ERROR_c)
        \<lparr>aborted := True, activeRequestCount := activeRequestCount u - 1\<rparr>) UPLOADING_t"
proof -
  have "axiosRetry (net_chunk net index) 10 0 = (False, 11)"
    using assms by (simp add: axiosRetry_exhausted)
  then show ?thesis
    by (simp add: uploadChunk_end_def Let_def set_chunk_def)
qed

lemma resume_aborted:
  assumes "aborted u" "w < length pcs" "pcs ! w = LoopHead"
  shows "resume net w (u, pcs) = (u, pcs[w := Returned])"
  using assms by (simp add: resume_def)

lemma settled_updateStatus:
  "POST_finalize \<notin> set (sent u) \<Longrightarrow> settled (updateStatus u UPLOADING_t)"
  by (simp add: settled_def updateStatus_def)

lemma settled_begin: "settled u \<Longrightarrow> settled (uploadChunk_begin (u\<lparr>queue := q\<rparr>) index)"
  by (simp add: uploadChunk_begin_def settled_def updateStatus_def set_chunk_def)

lemma settled_end: "settled u \<Longrightarrow> settled (uploadChunk_end net u index)"
  unfolding uploadChunk_end_def Let_def
  by (cases "axiosRetry (net_chunk net index) 10 0")
     (auto simp: settled_def updateStatus_def set_chunk_def)

lemma settled_resume: "settled (fst st) \<Longrightarrow> settled (fst (resume net w st))"
  by (cases st) (auto simp: resume_def Let_def settled_begin settled_end split: worker_pc.splits)

lemma settled_fold_resume: "settled (fst st) \<Longrightarrow> settled (fst (fold (resume net) ws st))"
  by (induction ws arbitrary: st) (simp_all add: settled_resume)

lemma mark_existing_frame:
  "reported (fold mark_existing xs u) = reported u"
  "sent (fold mark_existing xs u) = sent u"
  "aborted (fold mark_existing xs u) = aborted u"
  by (induction xs arbitrary: u) (simp_all add: mark_existing_def set_chunk_def)

lemma handshake_Inr:
  assumes "handshake net u = Inr u1" "POST_finalize \<notin> set (sent u)"
  shows "settled u1"
  using assms
  by (auto simp: handshake_def Let_def mark_existing_frame settled_def updateStatus_def
      split: option.splits)

lemma handshake_Inl:
  assumes "handshake net u = Inl u1"
  shows "aborted u1 = aborted u"
  using assms by (auto simp: handshake_def Let_def split: option.splits)

lemma processQueue_settled:
  assumes "processQueue net sched u = Some u'" "settled u"
  shows "settled u'"
proof -
  let ?st1 = "fold (resume net) [0 ..< CONCURRENCY] (u, replicate CONCURRENCY LoopHead)"
  have "settled (fst ?st1)"
    using assms(2) by (intro settled_fold_resume) simp
  then have "settled (fst (fold (resume net) sched ?st1))"
    by (rule settled_fold_resume)
  moreover have "u' = fst (fold (resume net) sched ?st1)"
    using assms(1) by (auto simp: processQueue_def Let_def split: prod.splits if_splits)
  ultimately show ?thesis by simp
qed

text \<open>
  C3.  A chunk whose transmissions all fail (the first call and the ten retries) is set to
  \<open>ERROR\<close> and the abort flag is set (\<open>uploadChunk_end_exhausted\<close>); a worker that
  reaches the head of its loop with the flag set returns without dispatching
  (\<open>resume_aborted\<close>).  For every transfer that ends with the abort flag set, no finalize
  request was sent, and the latest status handed to \<open>onProgress\<close> is \<open>UPLOADING\<close>: it
  is not \<open>ERROR\<close>.
\<close>

theorem aborted_transfer_reports_uploading:
  assumes "start net sched (new_Uploader f) = Some u'" and "aborted u'"
  shows "POST_finalize \<notin> set (sent u')
     \<and> reported u' \<noteq> [] \<and> us_status (last (reported u')) = UPLOADING_t
     \<and> us_status (last (reported u')) \<noteq> ERROR_t"
proof (cases "handshake net (new_Uploader f)")
  case (Inl u1)
  then have "aborted u1 = False"
    using handshake_Inl [OF Inl] by (simp add: new_Uploader_def)
  moreover from assms(1) Inl have "u' = updateStatus u1 ERROR_t"
    by (simp add: start_def)
  ultimately have "\<not> aborted u'"
    by (simp add: updateStatus_def)
  with assms(2) show ?thesis by simp
next
  case (Inr u1)
  let ?u2 = "u1\<lparr>queue := map cs_index (filter (\<lambda>c. cs_status c \<noteq> SUCCESS) (chunks_u u1))\<rparr>"
  have "settled u1"
    using Inr by (rule handshake_Inr) (simp add: new_Uploader_def)
  then have s2: "settled ?u2" by (simp add: settled_def)
  from assms(1) Inr obtain u3 where u3: "processQueue net sched ?u2 = Some u3"
    by (auto simp: start_def Let_def split: option.splits)
  have s3: "settled u3" using u3 s2 by (rule processQueue_settled)
  show ?thesis
  proof (cases "\<not> aborted u3 \<and> list_all (\<lambda>c. cs_status c = SUCCESS) (chunks_u u3)")
    case True
    with assms(1) Inr u3 have "aborted u' = False"
      by (auto simp: start_def Let_def finalize_def updateStatus_def split: sum.splits if_splits)
    with assms(2) show ?thesis by simp
  next
    case False
    with assms(1) Inr u3 have "u' = u3"
      by (simp add: start_def Let_def)
    with s3 show ?thesis by (simp add: settled_def)
  qed
qed

lemma workers_start:
  "replicate CONCURRENCY LoopHead = [LoopHead, LoopHead, LoopHead]"
  "[0 ..< CONCURRENCY] = [0, 1, 2]"
  by (simp_all add: CONCURRENCY_def eval_nat_numeral)

lemma new_Uploader_one_byte: "new_Uploader [0] =
     \<lparr>file_u = [0], uploadId_u = None,
      chunks_u = [\<lparr>cs_index = 0, cs_status = PENDING, cs_attempts = 0\<rparr>],
      activeRequestCount = 0, queue = [], aborted = False, loadedBytes = 0,
      reported = [], sent = []\<rparr>"
  by (simp add: new_Uploader_def totalChunks_of_div CHUNK_SIZE_def)

lemma ex_net_fail_init: "net_init ex_net_fail = Some (''u1'', [])"
  by (simp add: ex_net_fail_def)

lemma ex_net_fail_chunk: "\<forall>j \<le> 10. \<not> net_chunk ex_net_fail 0 j"
  by (simp add: ex_net_fail_def)

lemma start_all_fail: "map_option (\<lambda>u. (map cs_status (chunks_u u), aborted u, sent u, map us_status (reported u)))
     (start ex_net_fail [0, 0] (new_Uploader [0]))
   = Some ([ERROR_c], True, POST_init # replicate 11 (POST_chunk 0),
           [UPLOADING_t, UPLOADING_t, UPLOADING_t])"
  unfolding new_Uploader_one_byte
  by (simp add: start_def handshake_def ex_net_fail_init processQueue_def workers_start resume_def
      uploadChunk_begin_def uploadChunk_end_exhausted [OF ex_net_fail_chunk]
      updateStatus_def set_chunk_def Let_def)

text \<open>
  The transfer of a one-byte file on a network where every transmission of chunk 0 fails:
  worker 0 dispatches chunk 0, workers 1 and 2 find the queue empty and return, the
  request of worker 0 settles after 11 calls, and worker 0 returns.
\<close>

theorem aborted_transfer_reports_uploading_witness:
  "\<exists>u'. start ex_net_fail [0, 0] (new_Uploader [0]) = Some u' \<and> aborted u'
     \<and> map cs_status (chunks_u u') = [ERROR_c]
     \<and> sent u' = POST_init # replicate 11 (POST_chunk 0)
     \<and> map us_status (reported u') = [UPLOADING_t, UPLOADING_t, UPLOADING_t]
     \<and> POST_finalize \<notin> set (sent u')
     \<and> us_status (last (reported u')) \<noteq> ERROR_t"
proof -
  from start_all_fail obtain u' where
    u: "start ex_net_fail [0, 0] (new_Uploader [0]) = Some u'" and a: "aborted u'"
    and p: "map cs_status (chunks_u u') = [ERROR_c]"
      "sent u' = POST_init # replicate 11 (POST_chunk 0)"
      "map us_status (reported u') = [UPLOADING_t, UPLOADING_t, UPLOADING_t]"
    by auto
  from aborted_transfer_reports_uploading [OF u a]
  have q: "POST_finalize \<notin> set (sent u')" "us_status (last (reported u')) \<noteq> ERROR_t"
    by simp_all
  show ?thesis
    by (rule exI [of _ u']) (intro conjI u a p q)
qed


section \<open>The primary keys are invariants\<close>

text \<open>
  The theorems about finalize and cleanup assume \<open>wf_db\<close>.  It holds of the empty store
  and every handler preserves it, so it holds of every state the server reaches.
\<close>

lemma wf_db_empty: "wf_db \<lparr>uploads = [], chunks = [], files = Map.empty\<rparr>"
  by (simp add: wf_db_def)

lemma init_create_wf:
  assumes "wf_db s" "init_create s found filename totalSize totalChunks newId now = Inr (s1, up)"
  shows "wf_db s1"
  using assms
  by (auto simp: init_create_def create_upload_def new_upload_def wf_db_def Let_def
      split: option.splits if_splits)

lemma wf_db_init: "wf_db s \<Longrightarrow> wf_db (fst (init_handler s req newId now))"
  by (auto simp: init_handler_def split: option.splits sum.splits dest: init_create_wf)

lemma update_chunk_keys:
  "map chunk_key (update_chunk cs uId cIndex st) = map chunk_key cs"
  unfolding update_chunk_def by (induction cs) (auto simp: chunk_key_def)

lemma upsert_chunk_keys:
  assumes "distinct (map chunk_key cs)"
  shows "distinct (map chunk_key (upsert_chunk cs uId cIndex st))"
proof (cases "(uId, cIndex) \<in> set (map chunk_key cs)")
  case True
  then have "upsert_chunk cs uId cIndex st = update_chunk cs uId cIndex st"
    by (simp add: upsert_chunk_def update_chunk_def)
  with assms show ?thesis by (simp add: update_chunk_keys)
next
  case False
  then have "map chunk_key (upsert_chunk cs uId cIndex st) = map chunk_key cs @ [(uId, cIndex)]"
    by (simp add: upsert_chunk_def chunk_key_def)
  with assms False show ?thesis by simp
qed

lemma wf_db_chunk: "wf_db s \<Longrightarrow> wf_db (fst (chunk_handler Number from_base64 s req))"
  by (auto simp: chunk_handler_def wf_db_def Let_def upsert_chunk_keys update_chunk_keys
      split: option.splits)

lemma update_upload_ids:
  assumes "\<And>u. u_id (f u) = u_id u"
  shows "map u_id (update_upload ups uid f) = map u_id ups"
  unfolding update_upload_def by (induction ups) (auto simp: assms)

lemma updateMany_ids: "map u_id (snd (updateMany_status ups uid old new)) = map u_id ups"
  unfolding updateMany_status_def by (induction ups) auto

lemma finalize_failed_ids:
  "map u_id (uploads (fst (finalize_failed t uid msg))) = map u_id (uploads t)"
  "chunks (fst (finalize_failed t uid msg)) = chunks t"
  by (simp_all add: finalize_failed_def update_upload_ids)

lemma finalize_keys:
  "map u_id (uploads (fst (finalize_handler dirs yauzl s uid))) = map u_id (uploads s)
   \<and> chunks (fst (finalize_handler dirs yauzl s uid)) = chunks s"
proof -
  obtain n ups where um: "updateMany_status (uploads s) uid UPLOADING PROCESSING = (n, ups)"
    by (cases "updateMany_status (uploads s) uid UPLOADING PROCESSING")
  have ups: "map u_id ups = map u_id (uploads s)"
    using updateMany_ids [of "uploads s" uid UPLOADING PROCESSING] um by simp
  note fl = finalize_failed_ids
  show ?thesis
  proof (cases "n = 0")
    case True
    then have "fst (updateMany_status (uploads s) uid UPLOADING PROCESSING) = 0"
      using um by simp
    then have "fst (finalize_handler dirs yauzl s uid) = s"
      by (simp add: finalize_count_zero split: option.splits)
    then show ?thesis by simp
  next
    case False
    let ?s1 = "s\<lparr>uploads := ups\<rparr>"
    show ?thesis
    proof (cases "findUnique_upload ups uid")
      case None
      have "fst (finalize_handler dirs yauzl s uid) = ?s1"
        using False None unfolding finalize_handler_def um by simp
      with ups show ?thesis by simp
    next
      case (Some upload)
      show ?thesis
      proof (cases "int (length (completed_chunks (chunks s) uid)) \<noteq> u_totalChunks upload")
        case True
        have "fst (finalize_handler dirs yauzl s uid) = fst (finalize_failed ?s1 uid
            (''Missing chunks. Expected '' @ show_int (u_totalChunks upload)
               @ '', got '' @ show_nat (length (completed_chunks (chunks s) uid))))"
          using False Some True unfolding finalize_handler_def um by simp
        with ups fl show ?thesis by simp
      next
        case eq: False
        show ?thesis
        proof (cases "assembleFile dirs (files s) uid (u_filename upload)")
          case (Inl err)
          have "fst (finalize_handler dirs yauzl s uid) = fst (finalize_failed ?s1 uid err)"
            using False Some eq Inl unfolding finalize_handler_def um by simp
          with ups fl show ?thesis by simp
        next
          case (Inr p)
          obtain fls filePath where p: "p = (fls, filePath)" by (cases p)
          show ?thesis
          proof (cases "peekZip yauzl fls filePath")
            case (Inl err)
            have "fst (finalize_handler dirs yauzl s uid) = fst (finalize_failed (?s1\<lparr>files := fls\<rparr>) uid err)"
              using False Some eq Inr p Inl unfolding finalize_handler_def um by simp
            with ups fl show ?thesis by simp
          next
            case names: (Inr names)
            have "fst (finalize_handler dirs yauzl s uid) = ?s1\<lparr>files := fls, uploads := update_upload ups uid
                    (\<lambda>u. u\<lparr>u_status := COMPLETED, u_finalHash := Some ''dummy_hash''\<rparr>)\<rparr>"
              using False Some eq Inr p names unfolding finalize_handler_def um
              by (simp add: Let_def)
            with ups show ?thesis by (simp add: update_upload_ids)
          qed
        qed
      qed
    qed
  qed
qed

lemma wf_db_finalize: "wf_db s \<Longrightarrow> wf_db (fst (finalize_handler dirs yauzl s uid))"
  using finalize_keys [of dirs yauzl s uid] by (simp add: wf_db_def)

lemma wf_db_cleanup: "wf_db s \<Longrightarrow> wf_db (fst (cleanup_handler s now))"
  by (simp add: wf_db_def cleanup_handler_def Let_def fold_cleanup_uploads fold_cleanup_chunks
      distinct_map_filter)

end
